theory Spec2Isabelle
  imports Complex_Main
begin

section \<open>Data model\<close>

text \<open>
  JavaScript numbers are modelled as exact reals: the development is about the algebra of
  the program, not about IEEE-754 rounding. Integer-valued numbers that the program uses as
  identifiers, counters, grid coordinates and array indices are modelled as \<open>int\<close>.

  A point is the object \<open>{x, y}\<close>; the fields are called \<open>px\<close> and \<open>py\<close> here. A shape
  is the object \<open>{id, points, color}\<close>; its \<open>id\<close> field is called \<open>shape_id\<close>.
\<close>

record point =
  px :: real
  py :: real

record shape =
  shape_id :: int
  points :: "point list"
  color :: string

section \<open>Coordinate transform (script.js, CanvasEngine)\<close>

text \<open>The constructor fixes the canvas to 800 by 600 and the cell size to 30.\<close>

definition canvas_width :: real where
  "canvas_width = 800"

definition canvas_height :: real where
  "canvas_height = 600"

definition gridSize :: real where
  "gridSize = 30"

definition angle :: real where
  "angle = pi / 6"

definition isoWidth :: real where
  "isoWidth = gridSize * cos angle"

definition isoHeight :: real where
  "isoHeight = gridSize * sin angle"

definition dragPointRadius :: real where
  "dragPointRadius = 8"

text \<open>\<open>Math.round\<close>: the nearest integer, a tie going towards plus infinity.\<close>

definition Math_round :: "real \<Rightarrow> int" where
  "Math_round v = \<lfloor>v + 1 / 2\<rfloor>"

definition screenToNearestGridPoint :: "real \<Rightarrow> real \<Rightarrow> int \<times> int" where
  "screenToNearestGridPoint canvasX canvasY =
     (let originX = canvas_width / 2;
          originY = canvas_height / 2;
          relX = canvasX - originX;
          relY = canvasY - originY;
          gridX = Math_round ((relX / isoWidth + relY / isoHeight) / 2);
          gridY = Math_round ((relY / isoHeight - relX / isoWidth) / 2)
      in (gridX, gridY))"

definition gridToScreen :: "int \<Rightarrow> int \<Rightarrow> point" where
  "gridToScreen gridX gridY =
     (let originX = canvas_width / 2;
          originY = canvas_height / 2;
          screenX = originX + (of_int gridX - of_int gridY) * isoWidth;
          screenY = originY + (of_int gridX + of_int gridY) * isoHeight
      in \<lparr>px = screenX, py = screenY\<rparr>)"

text \<open>The snapping round trip that every handler applies to a raw position.\<close>

definition snap :: "real \<Rightarrow> real \<Rightarrow> point" where
  "snap canvasX canvasY =
     (let gridPos = screenToNearestGridPoint canvasX canvasY
      in gridToScreen (fst gridPos) (snd gridPos))"

section \<open>Point in polygon (isPointInPolygon)\<close>

text \<open>
  The ray-casting loop \<open>for (i = 0, j = n - 1; i < n; j = i++)\<close>. The index \<open>j\<close> is only
  read inside the body, where the polygon is not empty, so that \<open>n - 1\<close> is a valid index.
  The edge test is \<open>yi > y !== yj > y && x < ((xj - xi) * (y - yi)) / (yj - yi) + xi\<close>;
  \<open>&&\<close> evaluates its right operand only when the left one is true.
\<close>

definition intersect :: "point \<Rightarrow> point \<Rightarrow> point \<Rightarrow> bool" where
  "intersect p vi vj =
     (if (py vi > py p) \<noteq> (py vj > py p)
      then px p < ((px vj - px vi) * (py p - py vi)) / (py vj - py vi) + px vi
      else False)"

function isPointInPolygon_loop :: "point \<Rightarrow> point list \<Rightarrow> nat \<Rightarrow> nat \<Rightarrow> bool \<Rightarrow> bool" where
  "isPointInPolygon_loop p polygon i j inside =
     (if i < length polygon
      then isPointInPolygon_loop p polygon (i + 1) i
             (if intersect p (polygon ! i) (polygon ! j) then \<not> inside else inside)
      else inside)"
  by pat_completeness auto
termination
  by (relation "measure (\<lambda>(p, polygon, i, j, inside). length polygon - i)") auto

declare isPointInPolygon_loop.simps [simp del]

definition isPointInPolygon :: "point \<Rightarrow> point list \<Rightarrow> bool" where
  "isPointInPolygon p polygon = isPointInPolygon_loop p polygon 0 (length polygon - 1) False"

text \<open>
  The same loop with the division made observable: a division whose divisor is zero is
  reported as \<open>Inl DivisionByZero\<close> instead of being carried out.
\<close>

datatype arith_fault = DivisionByZero

definition checked_div :: "real \<Rightarrow> real \<Rightarrow> arith_fault + real" where
  "checked_div a b = (if b = 0 then Inl DivisionByZero else Inr (a / b))"

definition intersect_checked :: "point \<Rightarrow> point \<Rightarrow> point \<Rightarrow> arith_fault + bool" where
  "intersect_checked p vi vj =
     (if (py vi > py p) \<noteq> (py vj > py p)
      then (case checked_div ((px vj - px vi) * (py p - py vi)) (py vj - py vi) of
              Inl e \<Rightarrow> Inl e
            | Inr q \<Rightarrow> Inr (px p < q + px vi))
      else Inr False)"

function isPointInPolygon_loop_checked ::
  "point \<Rightarrow> point list \<Rightarrow> nat \<Rightarrow> nat \<Rightarrow> bool \<Rightarrow> arith_fault + bool" where
  "isPointInPolygon_loop_checked p polygon i j inside =
     (if i < length polygon
      then (case intersect_checked p (polygon ! i) (polygon ! j) of
              Inl e \<Rightarrow> Inl e
            | Inr b \<Rightarrow> isPointInPolygon_loop_checked p polygon (i + 1) i
                         (if b then \<not> inside else inside))
      else Inr inside)"
  by pat_completeness auto
termination
  by (relation "measure (\<lambda>(p, polygon, i, j, inside). length polygon - i)") auto

declare isPointInPolygon_loop_checked.simps [simp del]

definition isPointInPolygon_checked :: "point \<Rightarrow> point list \<Rightarrow> arith_fault + bool" where
  "isPointInPolygon_checked p polygon =
     isPointInPolygon_loop_checked p polygon 0 (length polygon - 1) False"

section \<open>JavaScript array helpers\<close>

text \<open>
  \<open>xs[i]\<close> is \<open>undefined\<close> outside \<open>0 \<le> i < xs.length\<close>; \<open>findIndex\<close> returns \<open>-1\<close> when no
  element satisfies the predicate; \<open>splice(start, deleteCount, ...items)\<close> clamps \<open>start\<close>
  into the array (a negative one counts from the end) and \<open>deleteCount\<close> into what is left.
\<close>

definition js_nth :: "'a list \<Rightarrow> int \<Rightarrow> 'a option" where
  "js_nth xs i = (if 0 \<le> i \<and> i < int (length xs) then Some (xs ! nat i) else None)"

fun findIndex :: "('a \<Rightarrow> bool) \<Rightarrow> 'a list \<Rightarrow> int" where
  "findIndex P [] = - 1"
| "findIndex P (a # as) =
     (if P a then 0 else (let r = findIndex P as in if r = - 1 then - 1 else r + 1))"

definition splice :: "'a list \<Rightarrow> int \<Rightarrow> int \<Rightarrow> 'a list \<Rightarrow> 'a list" where
  "splice xs start deleteCount items =
     (let len = int (length xs);
          s = (if start < 0 then max (len + start) 0 else min start len);
          d = min (max deleteCount 0) (len - s)
      in take (nat s) xs @ items @ drop (nat (s + d)) xs)"

section \<open>The drawing tool and its commands (script.js)\<close>

text \<open>
  The fields of \<open>IsometricDrawingTool\<close> that hold drawing state. Canvas, DOM elements and
  rendering are left out: they do not feed back into the state.
\<close>

record tool =
  shapes :: "shape list"
  paletteColors :: "string list"
  shapeIdCounter :: int
  isDrawing :: bool
  currentShapePoints :: "point list"
  snapPoint :: "point option"
  currentColor :: string
  isFillMode :: bool
  isDeleteMode :: bool
  isEditMode :: bool
  isDragging :: bool
  selectedShapeIndex :: int
  selectedPointIndex :: int
  dragStartPoint :: "point option"

definition maxPaletteSize :: nat where
  "maxPaletteSize = 10"

definition addPaletteColor_list :: "string \<Rightarrow> string list \<Rightarrow> string list" where
  "addPaletteColor_list c pal =
     (let pal1 = (if c \<in> set pal then remove1 c pal else pal);
          pal2 = pal1 @ [c]
      in if length pal2 > maxPaletteSize then tl pal2 else pal2)"

definition addPaletteColor :: "string \<Rightarrow> tool \<Rightarrow> tool" where
  "addPaletteColor c t = t\<lparr>paletteColors := addPaletteColor_list c (paletteColors t)\<rparr>"

text \<open>
  \<open>renderPaletteFromShapes\<close>: the distinct colours of the shapes in order of first
  occurrence (the iteration order of a \<open>Set\<close>), cut to the last ten.
\<close>

definition renderPaletteFromShapes :: "tool \<Rightarrow> tool" where
  "renderPaletteFromShapes t =
     (let uniqueColors = rev (remdups (rev (map color (shapes t))))
      in t\<lparr>paletteColors := drop (length uniqueColors - maxPaletteSize) uniqueColors\<rparr>)"

definition getNextShapeId :: "tool \<Rightarrow> int \<times> tool" where
  "getNextShapeId t = (shapeIdCounter t + 1, t\<lparr>shapeIdCounter := shapeIdCounter t + 1\<rparr>)"

text \<open>
  The object \<open>{points, color}\<close> that the drawing handler and the SVG parser produce; a shape
  without an id yet.
\<close>

record shapeData =
  data_points :: "point list"
  data_color :: string

text \<open>
  The six command classes. \<open>AddShapeCommand\<close> holds its \<open>shapeData\<close> and the id that
  \<open>execute\<close> writes into it the first time (\<open>None\<close> while \<open>shapeData.id\<close> is undefined).
  Commands are modelled as values. In the source a command and the tool can hold the same
  shape object: \<open>AddShapeCommand\<close> and \<open>ImportShapesCommand\<close> push their own objects into
  \<open>tool.shapes\<close>, and the deep copies held by \<open>DeleteShapeCommand\<close> and
  \<open>ClearAllCommand\<close> are shared from their \<open>undo\<close> on. While a command waits on the undo
  stack, \<open>undo\<close> reads of it only what no other command writes (ids, indices, colours and
  points held as copies; point objects are replaced, never written to), so that values
  are exact for executing and undoing. A redo of an \<open>AddShapeCommand\<close> can push an object
  that a later command has changed in the meantime; the value model does not show that.
\<close>

datatype command =
    AddShapeCommand shapeData "int option"
  | DeleteShapeCommand int shape
  | FillShapeCommand int string string
  | EditShapePointCommand int int point point
  | ClearAllCommand "shape list"
  | ImportShapesCommand "shape list"

text \<open>One step of the \<open>forEach\<close> in \<open>ImportShapesCommand.execute\<close>.\<close>

definition import_add :: "tool \<Rightarrow> shape \<Rightarrow> tool" where
  "import_add t sh =
     (let exists = list_ex (\<lambda>existingShape. shape_id existingShape = shape_id sh) (shapes t)
      in if \<not> exists then addPaletteColor (color sh) (t\<lparr>shapes := shapes t @ [sh]\<rparr>) else t)"

text \<open>One step of the \<open>forEach\<close> in \<open>ImportShapesCommand.undo\<close>.\<close>

definition import_remove :: "tool \<Rightarrow> shape \<Rightarrow> tool" where
  "import_remove t sh =
     (let index = findIndex (\<lambda>existingShape. shape_id existingShape = shape_id sh) (shapes t)
      in if index > - 1 then t\<lparr>shapes := splice (shapes t) index 1 []\<rparr> else t)"

text \<open>
  \<open>execute\<close> of each command class. The result carries the command as well, because
  \<open>AddShapeCommand.execute\<close> writes the id into the command's own \<open>shapeData\<close>.
\<close>

fun command_execute :: "command \<Rightarrow> tool \<Rightarrow> command \<times> tool" where
  "command_execute (AddShapeCommand sd ido) t =
     (let (i, t1) = (case ido of None \<Rightarrow> getNextShapeId t | Some i \<Rightarrow> (i, t));
          sh = \<lparr>shape_id = i, points = data_points sd, color = data_color sd\<rparr>;
          t2 = t1\<lparr>shapes := shapes t1 @ [sh]\<rparr>
      in (AddShapeCommand sd (Some i), addPaletteColor (data_color sd) t2))"
| "command_execute (DeleteShapeCommand shapeIndex deletedShape) t =
     (DeleteShapeCommand shapeIndex deletedShape,
      if shapeIndex \<ge> 0 \<and> shapeIndex < int (length (shapes t))
      then t\<lparr>shapes := splice (shapes t) shapeIndex 1 []\<rparr>
      else t)"
| "command_execute (FillShapeCommand shapeIndex oldColor newColor) t =
     (FillShapeCommand shapeIndex oldColor newColor,
      case js_nth (shapes t) shapeIndex of
        Some sh \<Rightarrow>
          addPaletteColor newColor
            (t\<lparr>shapes := (shapes t)[nat shapeIndex := sh\<lparr>color := newColor\<rparr>]\<rparr>)
      | None \<Rightarrow> t)"
| "command_execute (EditShapePointCommand shapeIndex pointIndex oldPoint newPoint) t =
     (EditShapePointCommand shapeIndex pointIndex oldPoint newPoint,
      case js_nth (shapes t) shapeIndex of
        Some sh \<Rightarrow>
          (case js_nth (points sh) pointIndex of
             Some q \<Rightarrow>
               t\<lparr>shapes := (shapes t)[nat shapeIndex :=
                     sh\<lparr>points := (points sh)[nat pointIndex := newPoint]\<rparr>]\<rparr>
           | None \<Rightarrow> t)
      | None \<Rightarrow> t)"
| "command_execute (ClearAllCommand originalShapes) t =
     (ClearAllCommand originalShapes, t\<lparr>shapes := [], paletteColors := []\<rparr>)"
| "command_execute (ImportShapesCommand shapesToAdd) t =
     (ImportShapesCommand shapesToAdd, foldl import_add t shapesToAdd)"

fun command_undo :: "command \<Rightarrow> tool \<Rightarrow> tool" where
  "command_undo (AddShapeCommand sd ido) t =
     (let index = findIndex (\<lambda>sh. Some (shape_id sh) = ido) (shapes t)
      in if index > - 1 then t\<lparr>shapes := splice (shapes t) index 1 []\<rparr> else t)"
| "command_undo (DeleteShapeCommand shapeIndex deletedShape) t =
     addPaletteColor (color deletedShape)
       (t\<lparr>shapes := splice (shapes t) shapeIndex 0 [deletedShape]\<rparr>)"
| "command_undo (FillShapeCommand shapeIndex oldColor newColor) t =
     (case js_nth (shapes t) shapeIndex of
        Some sh \<Rightarrow> t\<lparr>shapes := (shapes t)[nat shapeIndex := sh\<lparr>color := oldColor\<rparr>]\<rparr>
      | None \<Rightarrow> t)"
| "command_undo (EditShapePointCommand shapeIndex pointIndex oldPoint newPoint) t =
     (case js_nth (shapes t) shapeIndex of
        Some sh \<Rightarrow>
          (case js_nth (points sh) pointIndex of
             Some q \<Rightarrow>
               t\<lparr>shapes := (shapes t)[nat shapeIndex :=
                     sh\<lparr>points := (points sh)[nat pointIndex := oldPoint]\<rparr>]\<rparr>
           | None \<Rightarrow> t)
      | None \<Rightarrow> t)"
| "command_undo (ClearAllCommand originalShapes) t =
     foldl (\<lambda>u sh. addPaletteColor (color sh) u)
       (t\<lparr>shapes := originalShapes, paletteColors := []\<rparr>) originalShapes"
| "command_undo (ImportShapesCommand shapesToAdd) t =
     renderPaletteFromShapes (foldl import_remove t shapesToAdd)"

text \<open>
  The constructor of \<open>ImportShapesCommand\<close> assigns the ids, one \<open>getNextShapeId\<close> per
  imported shape, in order.
\<close>

fun assign_ids :: "shapeData list \<Rightarrow> tool \<Rightarrow> shape list \<times> tool" where
  "assign_ids [] t = ([], t)"
| "assign_ids (sd # sds) t =
     (let (i, t1) = getNextShapeId t;
          (rest, t2) = assign_ids sds t1
      in (\<lparr>shape_id = i, points = data_points sd, color = data_color sd\<rparr> # rest, t2))"

definition new_ImportShapesCommand :: "shapeData list \<Rightarrow> tool \<Rightarrow> command \<times> tool" where
  "new_ImportShapesCommand importedShapesData t =
     (let (shapesToAdd, t1) = assign_ids importedShapesData t
      in (ImportShapesCommand shapesToAdd, t1))"

text \<open>
  \<open>CommandManager\<close>: the tool it acts on and the two stacks, the most recent command last.
  Updating the buttons, saving to local storage and redrawing do not change this state.
\<close>

record CommandManager =
  tool :: tool
  undoStack :: "command list"
  redoStack :: "command list"

definition CommandManager_execute :: "command \<Rightarrow> CommandManager \<Rightarrow> CommandManager" where
  "CommandManager_execute c m =
     (let (c1, t1) = command_execute c (tool m)
      in \<lparr>tool = t1, undoStack = undoStack m @ [c1], redoStack = []\<rparr>)"

definition CommandManager_undo :: "CommandManager \<Rightarrow> CommandManager" where
  "CommandManager_undo m =
     (if length (undoStack m) > 0
      then (let c = last (undoStack m);
                t1 = command_undo c (tool m)
            in \<lparr>tool = t1, undoStack = butlast (undoStack m), redoStack = redoStack m @ [c]\<rparr>)
      else m)"

definition CommandManager_redo :: "CommandManager \<Rightarrow> CommandManager" where
  "CommandManager_redo m =
     (if length (redoStack m) > 0
      then (let c = last (redoStack m);
                (c1, t1) = command_execute c (tool m)
            in \<lparr>tool = t1, undoStack = undoStack m @ [c1], redoStack = butlast (redoStack m)\<rparr>)
      else m)"

section \<open>Mouse clicks in script.js (handleMouseDown)\<close>

text \<open>
  Outcomes that end a handler early. \<open>TypeError\<close> and \<open>SyntaxError\<close> are the JavaScript
  exceptions (a property read on \<open>undefined\<close>; \<open>JSON.parse\<close> of the text \<open>undefined\<close>).
  \<open>SparseWrite\<close> is not an exception: it marks an assignment \<open>xs[i] = v\<close> with \<open>i\<close> outside
  \<open>0..xs.length\<close>, after which \<open>xs\<close> is no longer a dense list; the model stops there.
\<close>

datatype js_error = TypeError | SyntaxError | SparseWrite

text \<open>
  \<open>for (let i = xs.length - 1; i >= 0; i--) if (P(xs[i])) { ...; break; }\<close>, called with
  the length of \<open>xs\<close>: the argument \<open>Suc i\<close> stands for the loop at index \<open>i\<close>.
\<close>

fun reverse_find :: "('a \<Rightarrow> bool) \<Rightarrow> 'a list \<Rightarrow> nat \<Rightarrow> nat option" where
  "reverse_find P xs 0 = None"
| "reverse_find P xs (Suc i) = (if P (xs ! i) then Some i else reverse_find P xs i)"

text \<open>The inner loop of edit mode: the first point of a shape within the drag radius.\<close>

fun near_point_from :: "real \<Rightarrow> real \<Rightarrow> point list \<Rightarrow> nat \<Rightarrow> nat option" where
  "near_point_from canvasX canvasY [] j = None"
| "near_point_from canvasX canvasY (q # qs) j =
     (let dx = canvasX - px q;
          dy = canvasY - py q
      in if dx * dx + dy * dy < dragPointRadius * dragPointRadius then Some j
         else near_point_from canvasX canvasY qs (j + 1))"

fun edit_search :: "real \<Rightarrow> real \<Rightarrow> shape list \<Rightarrow> nat \<Rightarrow> (nat \<times> nat) option" where
  "edit_search canvasX canvasY shs 0 = None"
| "edit_search canvasX canvasY shs (Suc i) =
     (case near_point_from canvasX canvasY (points (shs ! i)) 0 of
        Some j \<Rightarrow> Some (i, j)
      | None \<Rightarrow> edit_search canvasX canvasY shs i)"

text \<open>
  The hit tests. Delete mode in script.js and both fill and delete mode in CanvasEngine
  test \<open>isPointInPolygon\<close> alone; fill mode in script.js also asks for more than two points.
\<close>

definition topmost_containing :: "real \<Rightarrow> real \<Rightarrow> shape list \<Rightarrow> nat option" where
  "topmost_containing canvasX canvasY shs =
     reverse_find (\<lambda>sh. isPointInPolygon \<lparr>px = canvasX, py = canvasY\<rparr> (points sh))
       shs (length shs)"

definition topmost_fillable :: "real \<Rightarrow> real \<Rightarrow> shape list \<Rightarrow> nat option" where
  "topmost_fillable canvasX canvasY shs =
     reverse_find (\<lambda>sh. length (points sh) > 2
                        \<and> isPointInPolygon \<lparr>px = canvasX, py = canvasY\<rparr> (points sh))
       shs (length shs)"

text \<open>
  \<open>handleMouseDown\<close> for the left button, on canvas coordinates. With \<open>isDrawing\<close> set and
  no point placed, \<open>startPoint\<close> is \<open>undefined\<close> and reading \<open>startPoint.x\<close> throws.
\<close>

definition handleMouseDown :: "real \<Rightarrow> real \<Rightarrow> CommandManager \<Rightarrow> js_error + CommandManager" where
  "handleMouseDown canvasX canvasY m =
     (let t = tool m in
      if isEditMode t then
        (let t0 = t\<lparr>selectedShapeIndex := - 1, selectedPointIndex := - 1,
                     isDragging := False, dragStartPoint := None\<rparr>
         in case edit_search canvasX canvasY (shapes t0) (length (shapes t0)) of
              Some (i, j) \<Rightarrow>
                Inr (m\<lparr>tool := t0\<lparr>selectedShapeIndex := int i, selectedPointIndex := int j,
                                    isDragging := True,
                                    dragStartPoint := Some (points (shapes t0 ! i) ! j)\<rparr>\<rparr>)
            | None \<Rightarrow> Inr (m\<lparr>tool := t0\<rparr>))
      else if isDeleteMode t then
        (case topmost_containing canvasX canvasY (shapes t) of
           Some i \<Rightarrow> Inr (CommandManager_execute (DeleteShapeCommand (int i) (shapes t ! i)) m)
         | None \<Rightarrow> Inr m)
      else if isFillMode t then
        (case topmost_fillable canvasX canvasY (shapes t) of
           Some i \<Rightarrow>
             (let sh = shapes t ! i
              in if color sh \<noteq> currentColor t
                 then Inr (CommandManager_execute
                             (FillShapeCommand (int i) (color sh) (currentColor t)) m)
                 else Inr m)
         | None \<Rightarrow> Inr m)
      else
        (let clickedScreenPos = snap canvasX canvasY in
         if \<not> isDrawing t then
           Inr (m\<lparr>tool := t\<lparr>isDrawing := True, currentShapePoints := [clickedScreenPos],
                             snapPoint := Some clickedScreenPos\<rparr>\<rparr>)
         else
           (case currentShapePoints t of
              [] \<Rightarrow> Inl TypeError
            | startPoint # _ \<Rightarrow>
                (let lastPoint = last (currentShapePoints t);
                     dx = px clickedScreenPos - px startPoint;
                     dy = py clickedScreenPos - py startPoint;
                     closeToleranceSq = (dragPointRadius * 1.5)\<^sup>2;
                     isClosing = (dx * dx + dy * dy < closeToleranceSq
                                  \<and> length (currentShapePoints t) \<ge> 3)
                 in if isClosing then
                      (let sd = \<lparr>data_points = currentShapePoints t,
                                 data_color = currentColor t\<rparr>;
                           m1 = CommandManager_execute (AddShapeCommand sd None) m
                       in Inr (m1\<lparr>tool := (tool m1)\<lparr>isDrawing := False,
                                                       currentShapePoints := [],
                                                       snapPoint := None\<rparr>\<rparr>))
                    else if px clickedScreenPos \<noteq> px lastPoint
                            \<or> py clickedScreenPos \<noteq> py lastPoint then
                      Inr (m\<lparr>tool := t\<lparr>currentShapePoints :=
                                          currentShapePoints t @ [clickedScreenPos],
                                        snapPoint := Some clickedScreenPos\<rparr>\<rparr>)
                    else Inr m))))"

section \<open>The zustand store (drawingStore) and CanvasEngine\<close>

datatype Tool = DrawTool | FillTool | DeleteTool | EditTool

record currentDrawing =
  cd_isDrawing :: bool
  cd_points :: "point list"

record selection =
  sel_shapeIndex :: int
  sel_pointIndex :: int
  sel_isDragging :: bool
  sel_dragStartPoint :: "point option"

text \<open>
  The entries of the store's stacks: each is the action that \<open>undo\<close> (or \<open>redo\<close>) has to
  perform, with its payload.
\<close>

datatype UndoAction =
    DELETE_SHAPE int
  | ADD_SHAPE shape
  | FILL_SHAPE int string
  | EDIT_SHAPE_POINT int int point
  | IMPORT_SHAPES "shape list"
  | DELETE_MULTIPLE_SHAPES "int list"

text \<open>The state of the store; the fields carry the prefix \<open>st_\<close>.\<close>

record DrawingState =
  st_shapes :: "shape list"
  st_paletteColors :: "string list"
  st_shapeIdCounter :: int
  st_activeTool :: Tool
  st_currentColor :: string
  st_currentDrawing :: currentDrawing
  st_selection :: selection
  st_undoStack :: "UndoAction list"
  st_redoStack :: "UndoAction list"
  st_snapPoint :: "point option"

definition no_drawing :: currentDrawing where
  "no_drawing = \<lparr>cd_isDrawing = False, cd_points = []\<rparr>"

definition no_selection :: selection where
  "no_selection = \<lparr>sel_shapeIndex = - 1, sel_pointIndex = - 1, sel_isDragging = False,
                    sel_dragStartPoint = None\<rparr>"

definition store_addPaletteColor :: "string \<Rightarrow> DrawingState \<Rightarrow> DrawingState" where
  "store_addPaletteColor c st =
     st\<lparr>st_paletteColors := addPaletteColor_list c (st_paletteColors st)\<rparr>"




definition cancelDrawing :: "DrawingState \<Rightarrow> DrawingState" where
  "cancelDrawing st = st\<lparr>st_currentDrawing := no_drawing\<rparr>"

definition deleteShape :: "int \<Rightarrow> DrawingState \<Rightarrow> DrawingState" where
  "deleteShape shapeId st =
     (case find (\<lambda>s. shape_id s = shapeId) (st_shapes st) of
        None \<Rightarrow> st
      | Some shapeToDelete \<Rightarrow>
          st\<lparr>st_shapes := filter (\<lambda>s. shape_id s \<noteq> shapeId) (st_shapes st),
             st_undoStack := st_undoStack st @ [ADD_SHAPE shapeToDelete],
             st_redoStack := []\<rparr>)"

definition fillShape :: "int \<Rightarrow> string \<Rightarrow> DrawingState \<Rightarrow> DrawingState" where
  "fillShape shapeId newColor st =
     (case find (\<lambda>s. shape_id s = shapeId) (st_shapes st) of
        None \<Rightarrow> st
      | Some shapeToFill \<Rightarrow>
          if color shapeToFill = newColor then st
          else store_addPaletteColor newColor
                 (st\<lparr>st_shapes := map (\<lambda>s. if shape_id s = shapeId
                                            then s\<lparr>color := newColor\<rparr> else s) (st_shapes st),
                     st_undoStack := st_undoStack st @ [FILL_SHAPE shapeId (color shapeToFill)],
                     st_redoStack := []\<rparr>))"

definition startDraggingPoint :: "int \<Rightarrow> int \<Rightarrow> point \<Rightarrow> DrawingState \<Rightarrow> DrawingState" where
  "startDraggingPoint shapeIndex pointIndex startPoint st =
     st\<lparr>st_selection := \<lparr>sel_shapeIndex = shapeIndex, sel_pointIndex = pointIndex,
                          sel_isDragging = True, sel_dragStartPoint = Some startPoint\<rparr>\<rparr>"

text \<open>
  \<open>xs[i] = v\<close> on an array: inside the array it replaces, at \<open>xs.length\<close> it appends;
  anywhere else the result is not a dense list (\<open>None\<close>).
\<close>

definition js_array_set :: "'a list \<Rightarrow> int \<Rightarrow> 'a \<Rightarrow> 'a list option" where
  "js_array_set xs i v =
     (if 0 \<le> i \<and> i < int (length xs) then Some (xs[nat i := v])
      else if i = int (length xs) then Some (xs @ [v])
      else None)"

definition dragPoint :: "point \<Rightarrow> DrawingState \<Rightarrow> js_error + DrawingState" where
  "dragPoint newPoint st =
     (let sel = st_selection st in
      if \<not> sel_isDragging sel then Inr st
      else (case js_nth (st_shapes st) (sel_shapeIndex sel) of
              None \<Rightarrow> Inl TypeError
            | Some sh \<Rightarrow>
                (case js_array_set (points sh) (sel_pointIndex sel) newPoint of
                   None \<Rightarrow> Inl SparseWrite
                 | Some pts \<Rightarrow>
                     Inr (st\<lparr>st_shapes := (st_shapes st)[nat (sel_shapeIndex sel) :=
                                              sh\<lparr>points := pts\<rparr>]\<rparr>))))"

definition finishDraggingPoint :: "DrawingState \<Rightarrow> js_error + DrawingState" where
  "finishDraggingPoint st =
     (let sel = st_selection st in
      case sel_dragStartPoint sel of
        None \<Rightarrow> Inr st
      | Some dragStart \<Rightarrow>
          if \<not> sel_isDragging sel then Inr st
          else (case js_nth (st_shapes st) (sel_shapeIndex sel) of
                  None \<Rightarrow> Inl TypeError
                | Some sh \<Rightarrow>
                    (case js_nth (points sh) (sel_pointIndex sel) of
                       None \<Rightarrow> Inl TypeError
                     | Some finalPoint \<Rightarrow>
                         (let st1 =
                            (if px dragStart \<noteq> px finalPoint \<or> py dragStart \<noteq> py finalPoint
                             then st\<lparr>st_undoStack := st_undoStack st @
                                        [EDIT_SHAPE_POINT (sel_shapeIndex sel)
                                           (sel_pointIndex sel) dragStart],
                                     st_redoStack := []\<rparr>
                             else st)
                          in Inr (st1\<lparr>st_selection := no_selection\<rparr>)))))"

definition clearCanvas :: "DrawingState \<Rightarrow> DrawingState" where
  "clearCanvas st =
     (if length (st_shapes st) = 0 then st
      else st\<lparr>st_shapes := [],
              st_currentDrawing := no_drawing,
              st_undoStack := st_undoStack st @ [IMPORT_SHAPES (st_shapes st)],
              st_redoStack := []\<rparr>)"

fun store_assign_ids :: "shapeData list \<Rightarrow> int \<Rightarrow> shape list \<times> int" where
  "store_assign_ids [] counter = ([], counter)"
| "store_assign_ids (sd # sds) counter =
     (let (rest, c) = store_assign_ids sds (counter + 1)
      in (\<lparr>shape_id = counter + 1, points = data_points sd, color = data_color sd\<rparr>
            # rest, c))"

definition importShapes :: "shapeData list \<Rightarrow> DrawingState \<Rightarrow> DrawingState" where
  "importShapes importedShapes st =
     (let (shapesWithIds, c) = store_assign_ids importedShapes (st_shapeIdCounter st);
          undoAction = DELETE_MULTIPLE_SHAPES (map shape_id shapesWithIds);
          st1 = st\<lparr>st_shapes := st_shapes st @ shapesWithIds,
                   st_shapeIdCounter := c,
                   st_undoStack := st_undoStack st @ [undoAction],
                   st_redoStack := []\<rparr>
      in foldl (\<lambda>u s. store_addPaletteColor (color s) u) st1 shapesWithIds)"

text \<open>
  The \<open>switch\<close> over the action type, which \<open>undo\<close> and \<open>redo\<close> both contain with the same
  cases: it changes shapes and palette and yields the entry that goes onto the other
  stack (the popped entry itself where the source does not replace it). \<open>deepCopy\<close> is
  \<open>JSON.parse(JSON.stringify(_))\<close>: the identity on shapes and points, and a
  \<open>SyntaxError\<close> on \<open>undefined\<close>, which is what \<open>points[pointIndex]\<close> is outside the array.
\<close>

fun perform_action :: "UndoAction \<Rightarrow> DrawingState \<Rightarrow> js_error + UndoAction \<times> DrawingState" where
  "perform_action (DELETE_SHAPE shapeId) st =
     (case find (\<lambda>s. shape_id s = shapeId) (st_shapes st) of
        Some shapeToRestore \<Rightarrow>
          Inr (ADD_SHAPE shapeToRestore,
               st\<lparr>st_shapes := filter (\<lambda>s. shape_id s \<noteq> shapeId) (st_shapes st)\<rparr>)
      | None \<Rightarrow> Inr (DELETE_SHAPE shapeId, st))"
| "perform_action (ADD_SHAPE sh) st =
     Inr (ADD_SHAPE sh,
          store_addPaletteColor (color sh) (st\<lparr>st_shapes := st_shapes st @ [sh]\<rparr>))"
| "perform_action (FILL_SHAPE shapeId c) st =
     (let k = findIndex (\<lambda>s. shape_id s = shapeId) (st_shapes st) in
      case js_nth (st_shapes st) k of
        Some shapeToUpdate \<Rightarrow>
          Inr (FILL_SHAPE shapeId (color shapeToUpdate),
               st\<lparr>st_shapes := (st_shapes st)[nat k := shapeToUpdate\<lparr>color := c\<rparr>]\<rparr>)
      | None \<Rightarrow> Inr (FILL_SHAPE shapeId c, st))"
| "perform_action (EDIT_SHAPE_POINT shapeIndex pointIndex p) st =
     (case js_nth (st_shapes st) shapeIndex of
        Some shapeToUpdate \<Rightarrow>
          (case js_nth (points shapeToUpdate) pointIndex of
             None \<Rightarrow> Inl SyntaxError
           | Some oldPoint \<Rightarrow>
               Inr (EDIT_SHAPE_POINT shapeIndex pointIndex oldPoint,
                    st\<lparr>st_shapes := (st_shapes st)[nat shapeIndex :=
                          shapeToUpdate\<lparr>points := (points shapeToUpdate)[nat pointIndex := p]\<rparr>]\<rparr>))
      | None \<Rightarrow> Inr (EDIT_SHAPE_POINT shapeIndex pointIndex p, st))"
| "perform_action (IMPORT_SHAPES shapesToRestore) st =
     Inr (DELETE_MULTIPLE_SHAPES (map shape_id shapesToRestore),
          foldl (\<lambda>u s. store_addPaletteColor (color s) u)
            (st\<lparr>st_shapes := st_shapes st @ shapesToRestore\<rparr>) shapesToRestore)"
| "perform_action (DELETE_MULTIPLE_SHAPES shapeIds) st =
     Inr (IMPORT_SHAPES (filter (\<lambda>s. shape_id s \<in> set shapeIds) (st_shapes st)),
          st\<lparr>st_shapes := filter (\<lambda>s. shape_id s \<notin> set shapeIds) (st_shapes st)\<rparr>)"

definition store_undo :: "DrawingState \<Rightarrow> js_error + DrawingState" where
  "store_undo st =
     (if length (st_undoStack st) = 0 then Inr st
      else (let lastAction = last (st_undoStack st) in
            case perform_action lastAction st of
              Inl e \<Rightarrow> Inl e
            | Inr (entry, st1) \<Rightarrow>
                Inr (st1\<lparr>st_undoStack := butlast (st_undoStack st),
                         st_redoStack := st_redoStack st @ [entry]\<rparr>)))"

definition store_redo :: "DrawingState \<Rightarrow> js_error + DrawingState" where
  "store_redo st =
     (if length (st_redoStack st) = 0 then Inr st
      else (let lastAction = last (st_redoStack st) in
            case perform_action lastAction st of
              Inl e \<Rightarrow> Inl e
            | Inr (entry, st1) \<Rightarrow>
                Inr (st1\<lparr>st_redoStack := butlast (st_redoStack st),
                         st_undoStack := st_undoStack st @ [entry]\<rparr>)))"


section \<open>SVG import (parseSVGContent)\<close>

text \<open>
  The parser works on what the browser hands it. \<open>DOMParser.parseFromString\<close> and the
  DOM queries are taken as a parameter \<open>domParse\<close> from the text to the elements that the
  queries return; \<open>parseFloat\<close> is a parameter too, with \<open>None\<close> for \<open>NaN\<close>. Of an element
  the parser reads three attributes, each \<open>null\<close> (\<open>None\<close>) or a string.
\<close>

record svg_element =
  attr_points :: "string option"
  attr_fill :: "string option"
  attr_stroke :: "string option"








text \<open>
  A value of \<open>getAttribute\<close> counts as false in \<open>||\<close> and \<open>!\<close> when it is \<open>null\<close> or the
  empty string.
\<close>

definition element_color :: "svg_element \<Rightarrow> string" where
  "element_color el =
     (case attr_fill el of
        Some (c # cs) \<Rightarrow> c # cs
      | _ \<Rightarrow> (case attr_stroke el of
                Some (c # cs) \<Rightarrow> c # cs
              | _ \<Rightarrow> ''#000000''))"







section \<open>Commands as the handlers of script.js build them\<close>

text \<open>
  What the handlers guarantee when they build a command for the tool state \<open>t\<close> that the
  command is about to change: a new shape has no id yet; a deletion names the index of the
  shape and holds its copy; a fill holds the colour the shape has; an edit holds the point
  that the vertex had before the drag (the drag itself writes the new point into the shape
  before the command exists, so \<open>t\<close> is the state before the drag); a clear holds the copy of
  all shapes; an import holds shapes with fresh, distinct ids up to the counter.
\<close>

fun command_fits :: "command \<Rightarrow> tool \<Rightarrow> bool" where
  "command_fits (AddShapeCommand sd ido) t = (ido = None)"
| "command_fits (DeleteShapeCommand shapeIndex deletedShape) t =
     (0 \<le> shapeIndex \<and> shapeIndex < int (length (shapes t))
      \<and> shapes t ! nat shapeIndex = deletedShape)"
| "command_fits (FillShapeCommand shapeIndex oldColor newColor) t =
     (case js_nth (shapes t) shapeIndex of
        Some sh \<Rightarrow> color sh = oldColor
      | None \<Rightarrow> False)"
| "command_fits (EditShapePointCommand shapeIndex pointIndex oldPoint newPoint) t =
     (case js_nth (shapes t) shapeIndex of
        Some sh \<Rightarrow> js_nth (points sh) pointIndex = Some oldPoint
      | None \<Rightarrow> False)"
| "command_fits (ClearAllCommand originalShapes) t = (originalShapes = shapes t)"
| "command_fits (ImportShapesCommand shapesToAdd) t =
     (distinct (map shape_id shapesToAdd)
      \<and> list_all (\<lambda>sh. shape_id sh \<le> shapeIdCounter t
                        \<and> \<not> list_ex (\<lambda>e. shape_id e = shape_id sh) (shapes t)) shapesToAdd)"

text \<open>Ids are unique and none is above the counter.\<close>

definition ids_ok :: "tool \<Rightarrow> bool" where
  "ids_ok t = (distinct (map shape_id (shapes t))
               \<and> list_all (\<lambda>sh. shape_id sh \<le> shapeIdCounter t) (shapes t))"

text \<open>Every command of a sequence fits the state that the commands before it produce.\<close>

fun fits_all :: "command list \<Rightarrow> tool \<Rightarrow> bool" where
  "fits_all [] t = True"
| "fits_all (c # cs) t = (command_fits c t \<and> fits_all cs (snd (command_execute c t)))"

definition execute_all :: "command list \<Rightarrow> CommandManager \<Rightarrow> CommandManager" where
  "execute_all cs m = foldl (\<lambda>m c. CommandManager_execute c m) m cs"

definition undo_times :: "nat \<Rightarrow> CommandManager \<Rightarrow> CommandManager" where
  "undo_times n m = (CommandManager_undo ^^ n) m"

section \<open>Hit testing as the specification words it\<close>


section \<open>Running one store action after another\<close>

definition and_then :: "js_error + 'a \<Rightarrow> ('a \<Rightarrow> js_error + 'b) \<Rightarrow> js_error + 'b" where
  "and_then r f = (case r of Inl e \<Rightarrow> Inl e | Inr v \<Rightarrow> f v)"

section \<open>Example drawings\<close>

text \<open>
  Shapes on grid intersections: a triangle and a square at the origin of the grid, a
  second triangle further down, and a two-point line.
\<close>

definition triangleA :: shape where
  "triangleA = \<lparr>shape_id = 1,
                 points = [gridToScreen 0 0, gridToScreen 1 0, gridToScreen 0 1],
                 color = ''#000000''\<rparr>"

definition squareA :: shape where
  "squareA = \<lparr>shape_id = 1,
               points = [gridToScreen 0 0, gridToScreen 1 0, gridToScreen 1 1, gridToScreen 0 1],
               color = ''#000000''\<rparr>"

definition triangleB :: shape where
  "triangleB = \<lparr>shape_id = 2,
                 points = [gridToScreen 2 2, gridToScreen 3 2, gridToScreen 2 3],
                 color = ''#ff0000''\<rparr>"

definition lineC :: shape where
  "lineC = \<lparr>shape_id = 3,
             points = [gridToScreen 0 0, gridToScreen 1 1],
             color = ''#0000ff''\<rparr>"

definition example_tool :: "shape list \<Rightarrow> tool" where
  "example_tool shs =
     \<lparr>shapes = shs, paletteColors = [''#000000'', ''#ff0000''], shapeIdCounter = 3,
      isDrawing = False, currentShapePoints = [], snapPoint = None,
      currentColor = ''#00ff00'', isFillMode = False, isDeleteMode = False,
      isEditMode = False, isDragging = False, selectedShapeIndex = - 1,
      selectedPointIndex = - 1, dragStartPoint = None\<rparr>"

definition example_manager :: "shape list \<Rightarrow> CommandManager" where
  "example_manager shs = \<lparr>tool = example_tool shs, undoStack = [], redoStack = []\<rparr>"

definition example_store :: "shape list \<Rightarrow> DrawingState" where
  "example_store shs =
     \<lparr>st_shapes = shs, st_paletteColors = [''#000000'', ''#ff0000''], st_shapeIdCounter = 3,
      st_activeTool = EditTool, st_currentColor = ''#00ff00'',
      st_currentDrawing = no_drawing, st_selection = no_selection,
      st_undoStack = [], st_redoStack = [], st_snapPoint = None\<rparr>"

definition example_drawing :: CommandManager where
  "example_drawing =
     \<lparr>tool = (example_tool [])\<lparr>isDrawing := True,
               currentShapePoints := [gridToScreen 0 0, gridToScreen 1 0, gridToScreen 0 1],
               snapPoint := Some (gridToScreen 0 1)\<rparr>,
      undoStack = [], redoStack = []\<rparr>"

section \<open>Gestures and runs on the store\<close>

text \<open>
  Dragging a vertex as CanvasEngine dispatches it: mouse down on the vertex
  (\<open>startDraggingPoint\<close>), one mouse move (\<open>dragPoint\<close>), mouse up (\<open>finishDraggingPoint\<close>).
\<close>

definition drag_vertex ::
  "int \<Rightarrow> int \<Rightarrow> point \<Rightarrow> point \<Rightarrow> DrawingState \<Rightarrow> js_error + DrawingState" where
  "drag_vertex shapeIndex pointIndex startPoint newPoint st =
     and_then (dragPoint newPoint (startDraggingPoint shapeIndex pointIndex startPoint st))
       finishDraggingPoint"

text \<open>
  Two commands and one undo: drag a vertex of the first shape, delete that shape, undo.
\<close>

definition edit_delete_undo ::
  "shape list \<Rightarrow> int \<Rightarrow> point \<Rightarrow> js_error + DrawingState" where
  "edit_delete_undo shs pointIndex newPoint =
     and_then
       (and_then
          (drag_vertex 0 pointIndex (points (shs ! 0) ! nat pointIndex) newPoint
             (example_store shs))
          (\<lambda>st. Inr (deleteShape (shape_id (shs ! 0)) st)))
       store_undo"

text \<open>The same, with the second undo.\<close>

definition edit_delete_undo_undo ::
  "shape list \<Rightarrow> int \<Rightarrow> point \<Rightarrow> js_error + DrawingState" where
  "edit_delete_undo_undo shs pointIndex newPoint =
     and_then (edit_delete_undo shs pointIndex newPoint) store_undo"

section \<open>Properties of the coordinate transform\<close>


lemma isoHeight_eq: "isoHeight = 15"
  by (simp add: isoHeight_def gridSize_def angle_def sin_30)




section \<open>Properties of the point-in-polygon test\<close>

lemma intersect_checked_eq: "intersect_checked p a b = Inr (intersect p a b)"
  by (auto simp: intersect_checked_def intersect_def checked_div_def)

lemma isPointInPolygon_loop_checked_eq:
  "isPointInPolygon_loop_checked p polygon i j inside
     = Inr (isPointInPolygon_loop p polygon i j inside)"
proof (induction p polygon i j inside rule: isPointInPolygon_loop.induct)
  case (1 p polygon i j inside)
  show ?case
  proof (cases "i < length polygon")
    case True
    then show ?thesis
      using "1.IH" [OF True]
      by (subst isPointInPolygon_loop_checked.simps, subst isPointInPolygon_loop.simps)
         (simp add: intersect_checked_eq)
  next
    case False
    then show ?thesis
      by (subst isPointInPolygon_loop_checked.simps, subst isPointInPolygon_loop.simps) simp
  qed
qed

text \<open>
  C8: the point-in-polygon test is total and never divides by zero: for every query point
  and every point list it returns a boolean, the run in which a division by zero would be
  recorded never reports one, and an edge whose two end points have the same y never
  registers a crossing.
\<close>

theorem isPointInPolygon_never_divides_by_zero:
  "isPointInPolygon_checked p polygon = Inr (isPointInPolygon p polygon)
   \<and> intersect_checked p \<lparr>px = xi, py = yh\<rparr> \<lparr>px = xj, py = yh\<rparr> = Inr False"
  by (simp add: isPointInPolygon_checked_def isPointInPolygon_def
      isPointInPolygon_loop_checked_eq intersect_checked_def)

section \<open>Facts about the example points\<close>


lemma gridToScreen_py: "py (gridToScreen a b) = 300 + 15 * (of_int a + of_int b)"
  by (simp add: gridToScreen_def canvas_height_def isoHeight_eq)

lemma snap_origin: "snap 400 300 = gridToScreen 0 0"
  by (simp add: snap_def screenToNearestGridPoint_def canvas_width_def canvas_height_def
      Math_round_def)

section \<open>Closing a shape while drawing (script.js)\<close>

text \<open>
  C6: while drawing, with the placed points \<open>p0 # ps\<close>, a click closes the shape exactly when
  at least three points are placed and the squared distance between the snapped click and
  the first point is below \<open>(1.5 * 8)\<^sup>2\<close>. On closure the new shape has exactly the placed
  points (the closing click is not among them) and drawing ends; otherwise drawing goes
  on and no shape is added. With two points placed the first condition fails, so the click
  never closes.
\<close>

theorem drawing_click_closes_iff:
  assumes modes: "\<not> isEditMode (tool m)" "\<not> isDeleteMode (tool m)" "\<not> isFillMode (tool m)"
    and drawing: "isDrawing (tool m)"
    and placed: "currentShapePoints (tool m) = p0 # ps"
  shows "\<exists>m'. handleMouseDown canvasX canvasY m = Inr m' \<and>
    (if length (p0 # ps) \<ge> 3
        \<and> (px (snap canvasX canvasY) - px p0)\<^sup>2 + (py (snap canvasX canvasY) - py p0)\<^sup>2
            < (1.5 * 8)\<^sup>2
     then \<not> isDrawing (tool m') \<and> currentShapePoints (tool m') = []
          \<and> shapes (tool m') = shapes (tool m) @
               [\<lparr>shape_id = shapeIdCounter (tool m) + 1, points = p0 # ps,
                 color = currentColor (tool m)\<rparr>]
          \<and> undoStack m' = undoStack m @
               [AddShapeCommand \<lparr>data_points = p0 # ps, data_color = currentColor (tool m)\<rparr>
                  (Some (shapeIdCounter (tool m) + 1))]
     else isDrawing (tool m') \<and> shapes (tool m') = shapes (tool m)
          \<and> undoStack m' = undoStack m
          \<and> (currentShapePoints (tool m') = p0 # ps
               \<or> currentShapePoints (tool m') = (p0 # ps) @ [snap canvasX canvasY]))"
  using assms
  by (auto simp: handleMouseDown_def Let_def power2_eq_square dragPointRadius_def
      CommandManager_execute_def getNextShapeId_def addPaletteColor_def)

theorem drawing_click_closes_iff_witness:
  "\<exists>m'. handleMouseDown 400 300 example_drawing = Inr m'
     \<and> \<not> isDrawing (tool m') \<and> currentShapePoints (tool m') = []
     \<and> shapes (tool m') =
          [\<lparr>shape_id = 4, points = [gridToScreen 0 0, gridToScreen 1 0, gridToScreen 0 1],
            color = ''#00ff00''\<rparr>]"
  using drawing_click_closes_iff [of example_drawing "gridToScreen 0 0"
      "[gridToScreen 1 0, gridToScreen 0 1]" 400 300]
  by (auto simp: example_drawing_def example_tool_def snap_origin)

section \<open>Importing a batch twice (script.js)\<close>

lemma import_add_ids_mono:
  "shape_id ` set (shapes t) \<subseteq> shape_id ` set (shapes (import_add t sh))"
  by (auto simp: import_add_def addPaletteColor_def Let_def)

lemma import_add_present:
  "shape_id sh \<in> shape_id ` set (shapes (import_add t sh))"
  by (auto simp: import_add_def addPaletteColor_def Let_def list_ex_iff intro: rev_image_eqI)

lemma foldl_import_add_mono:
  "shape_id ` set (shapes t) \<subseteq> shape_id ` set (shapes (foldl import_add t xs))"
proof (induction xs arbitrary: t)
  case Nil
  then show ?case by simp
next
  case (Cons x xs)
  show ?case
    using import_add_ids_mono [of t x] Cons.IH [of "import_add t x"] by auto
qed

lemma foldl_import_add_present:
  "shape_id ` set xs \<subseteq> shape_id ` set (shapes (foldl import_add t xs))"
proof (induction xs arbitrary: t)
  case Nil
  then show ?case by simp
next
  case (Cons x xs)
  have "shape_id x \<in> shape_id ` set (shapes (foldl import_add (import_add t x) xs))"
    using import_add_present [of x t] foldl_import_add_mono [of "import_add t x" xs] by blast
  then show ?case
    using Cons.IH [of "import_add t x"] by auto
qed

lemma foldl_import_add_all_present:
  "shape_id ` set xs \<subseteq> shape_id ` set (shapes t) \<Longrightarrow> foldl import_add t xs = t"
proof (induction xs arbitrary: t)
  case Nil
  then show ?case by simp
next
  case (Cons x xs)
  have "import_add t x = t"
    using Cons.prems by (auto simp: import_add_def Let_def list_ex_iff)
  then show ?case
    using Cons by simp
qed

lemma import_add_distinct:
  "distinct (map shape_id (shapes t)) \<Longrightarrow> distinct (map shape_id (shapes (import_add t sh)))"
  by (auto simp: import_add_def addPaletteColor_def Let_def list_ex_iff)

lemma foldl_import_add_distinct:
  "distinct (map shape_id (shapes t)) \<Longrightarrow> distinct (map shape_id (shapes (foldl import_add t xs)))"
  by (induction xs arbitrary: t) (simp_all add: import_add_distinct)

text \<open>
  C9: \<open>ImportShapesCommand.execute\<close> is idempotent: running it a second time leaves the tool
  (shapes and palette alike) as the first run left it; and when the ids of the shapes
  are distinct before a run they are distinct after it, so that execute and redo never
  produce two shapes with the same id.
\<close>

theorem import_execute_idempotent:
  "snd (command_execute (ImportShapesCommand xs) (snd (command_execute (ImportShapesCommand xs) t)))
     = snd (command_execute (ImportShapesCommand xs) t)
   \<and> (distinct (map shape_id (shapes t)) \<longrightarrow>
        distinct (map shape_id (shapes (snd (command_execute (ImportShapesCommand xs) t)))))"
  by (simp add: foldl_import_add_all_present foldl_import_add_present foldl_import_add_distinct)

theorem import_execute_idempotent_witness:
  "distinct (map shape_id (shapes (example_tool [triangleA])))
   \<and> shapes (snd (command_execute (ImportShapesCommand [triangleB, lineC])
        (snd (command_execute (ImportShapesCommand [triangleB, lineC])
           (example_tool [triangleA])))))
      = shapes (snd (command_execute (ImportShapesCommand [triangleB, lineC])
           (example_tool [triangleA])))
   \<and> distinct (map shape_id (shapes (snd (command_execute (ImportShapesCommand [triangleB, lineC])
        (example_tool [triangleA])))))"
  using import_execute_idempotent [of "[triangleB, lineC]" "example_tool [triangleA]"]
  by (simp add: example_tool_def triangleA_def)

section \<open>Store actions on an id that is not there\<close>

text \<open>
  C10: in the store, \<open>deleteShape\<close> and \<open>fillShape\<close> with an id that no shape has return
  the state unchanged (shapes, both stacks and everything else), and so does \<open>fillShape\<close>
  when the shape found already has the requested colour.
\<close>

theorem store_noop_on_missing_id:
  "((\<forall>s \<in> set (st_shapes st). shape_id s \<noteq> i) \<longrightarrow> deleteShape i st = st \<and> fillShape i c st = st)
   \<and> (find (\<lambda>s. shape_id s = i) (st_shapes st) = Some sh \<and> color sh = c \<longrightarrow> fillShape i c st = st)"
proof -
  have "find (\<lambda>s. shape_id s = i) (st_shapes st) = None" if "\<forall>s \<in> set (st_shapes st). shape_id s \<noteq> i"
    using that by (simp add: find_None_iff)
  then show ?thesis
    by (auto simp: deleteShape_def fillShape_def)
qed

theorem store_noop_on_missing_id_witness:
  "deleteShape 7 (example_store [triangleA]) = example_store [triangleA]
   \<and> fillShape 7 ''#00ff00'' (example_store [triangleA]) = example_store [triangleA]
   \<and> find (\<lambda>s. shape_id s = 1) (st_shapes (example_store [triangleA])) = Some triangleA
   \<and> color triangleA = ''#000000''
   \<and> fillShape 1 ''#000000'' (example_store [triangleA]) = example_store [triangleA]"
  using store_noop_on_missing_id [of "example_store [triangleA]" 7 "''#00ff00''"]
    store_noop_on_missing_id [of "example_store [triangleA]" 1 "''#000000''" triangleA]
  by (simp add: example_store_def triangleA_def)

section \<open>Undoing a deletion\<close>

lemma splice_remove_one:
  "i < length xs \<Longrightarrow> splice xs (int i) 1 [] = take i xs @ drop (Suc i) xs"
  by (simp add: splice_def Let_def nat_add_distrib)

lemma splice_insert_one:
  "i \<le> length ys \<Longrightarrow> splice ys (int i) 0 [a] = take i ys @ [a] @ drop i ys"
  by (simp add: splice_def Let_def)

lemma delete_then_undo_shapes:
  assumes "i < length (shapes t)" "shapes t ! i = s"
  shows "shapes (command_undo (DeleteShapeCommand (int i) s)
           (snd (command_execute (DeleteShapeCommand (int i) s) t))) = shapes t"
proof -
  have "shapes (command_undo (DeleteShapeCommand (int i) s)
           (snd (command_execute (DeleteShapeCommand (int i) s) t)))
        = splice (take i (shapes t) @ drop (Suc i) (shapes t)) (int i) 0 [s]"
    using assms(1) by (simp add: splice_remove_one addPaletteColor_def)
  also have "\<dots> = take i (shapes t) @ [s] @ drop (Suc i) (shapes t)"
    using assms(1) by (subst splice_insert_one) (simp_all add: min_def)
  also have "\<dots> = take i (shapes t) @ shapes t ! i # drop (Suc i) (shapes t)"
    by (simp add: assms(2))
  also have "\<dots> = shapes t"
    by (rule id_take_nth_drop [OF assms(1), symmetric])
  finally show ?thesis .
qed

lemma store_delete_then_undo:
  assumes "find (\<lambda>t. shape_id t = i) (st_shapes st) = Some s"
  shows "\<exists>st'. store_undo (deleteShape i st) = Inr st'
           \<and> st_shapes st' = filter (\<lambda>t. shape_id t \<noteq> i) (st_shapes st) @ [s]"
  using assms by (simp add: deleteShape_def store_undo_def store_addPaletteColor_def)

lemma filter_other_ids_set:
  assumes "find (\<lambda>t. shape_id t = i) xs = Some s" "distinct (map shape_id xs)"
  shows "set (filter (\<lambda>t. shape_id t \<noteq> i) xs @ [s]) = set xs"
proof -
  obtain j where j: "j < length xs" "shape_id (xs ! j) = i" "s = xs ! j"
    using assms(1) unfolding find_Some_iff by blast
  have s: "s \<in> set xs" "shape_id s = i"
    using j by simp_all
  have inj: "inj_on shape_id (set xs)"
    using assms(2) by (simp add: distinct_map)
  have only: "t = s" if "t \<in> set xs" "shape_id t = i" for t
    using inj_onD [OF inj, of t s] that s by simp
  show ?thesis
  proof (intro set_eqI iffI)
    fix t
    assume "t \<in> set (filter (\<lambda>t. shape_id t \<noteq> i) xs @ [s])"
    then show "t \<in> set xs"
      using s(1) by auto
  next
    fix t
    assume t: "t \<in> set xs"
    show "t \<in> set (filter (\<lambda>t. shape_id t \<noteq> i) xs @ [s])"
    proof (cases "shape_id t = i")
      case True
      then show ?thesis using only [OF t] by simp
    next
      case False
      then show ?thesis using t by simp
    qed
  qed
qed

lemma example_ids:
  "shape_id triangleA = 1" "shape_id squareA = 1" "shape_id triangleB = 2" "shape_id lineC = 3"
  by (simp_all add: triangleA_def squareA_def triangleB_def lineC_def)

lemma example_colors:
  "color triangleA = ''#000000''" "color squareA = ''#000000''"
  "color triangleB = ''#ff0000''" "color lineC = ''#0000ff''"
  by (simp_all add: triangleA_def squareA_def triangleB_def lineC_def)

lemma triangleA_neq_triangleB: "triangleA \<noteq> triangleB"
  using example_ids by auto

lemma example_splices:
  "splice [triangleA, triangleB] 0 1 [] = [triangleB]"
  "splice [triangleB] 0 0 [triangleA] = [triangleA, triangleB]"
  by (simp_all add: splice_def)

lemma example_delete_first:
  "CommandManager_execute (DeleteShapeCommand 0 triangleA) (example_manager [triangleA, triangleB])
   = \<lparr>tool = example_tool [triangleB], undoStack = [DeleteShapeCommand 0 triangleA],
      redoStack = []\<rparr>"
  by (simp add: example_manager_def example_tool_def CommandManager_execute_def example_splices)

lemma example_undo_delete_first:
  "shapes (tool (CommandManager_undo
     \<lparr>tool = example_tool [triangleB], undoStack = [DeleteShapeCommand 0 triangleA],
      redoStack = []\<rparr>))
   = [triangleA, triangleB]"
  by (simp add: CommandManager_undo_def example_tool_def addPaletteColor_def example_splices)

text \<open>
  C4, as the code has it. In script.js, \<open>DeleteShapeCommand.undo\<close> puts the captured shape
  back at the index it was deleted from, so that deleting the shape at index \<open>i\<close> and
  undoing restores the sequence of shapes exactly. In the store, undoing \<open>deleteShape\<close>
  appends the captured shape: the shapes are the surviving ones followed by the restored
  shape as the last element, and, the ids being distinct, the same set of shapes as before.
\<close>

theorem delete_undo_position:
  "(i < length (shapes (tool m)) \<and> shapes (tool m) ! i = s \<longrightarrow>
      shapes (tool (CommandManager_undo
                (CommandManager_execute (DeleteShapeCommand (int i) s) m)))
        = shapes (tool m))
   \<and> (find (\<lambda>t. shape_id t = k) (st_shapes st) = Some r \<longrightarrow>
        (\<exists>st'. store_undo (deleteShape k st) = Inr st'
           \<and> st_shapes st' = filter (\<lambda>t. shape_id t \<noteq> k) (st_shapes st) @ [r]
           \<and> last (st_shapes st') = r
           \<and> (distinct (map shape_id (st_shapes st)) \<longrightarrow>
                set (st_shapes st') = set (st_shapes st))))"
proof (intro conjI impI)
  assume a: "i < length (shapes (tool m)) \<and> shapes (tool m) ! i = s"
  have "tool (CommandManager_undo (CommandManager_execute (DeleteShapeCommand (int i) s) m))
        = command_undo (DeleteShapeCommand (int i) s)
            (snd (command_execute (DeleteShapeCommand (int i) s) (tool m)))"
    by (simp add: CommandManager_undo_def CommandManager_execute_def)
  then show "shapes (tool (CommandManager_undo
                (CommandManager_execute (DeleteShapeCommand (int i) s) m)))
        = shapes (tool m)"
    using delete_then_undo_shapes [of i "tool m" s] a by simp
next
  assume b: "find (\<lambda>t. shape_id t = k) (st_shapes st) = Some r"
  obtain st' where st': "store_undo (deleteShape k st) = Inr st'"
      "st_shapes st' = filter (\<lambda>t. shape_id t \<noteq> k) (st_shapes st) @ [r]"
    using store_delete_then_undo [OF b] by blast
  show "\<exists>st'. store_undo (deleteShape k st) = Inr st'
           \<and> st_shapes st' = filter (\<lambda>t. shape_id t \<noteq> k) (st_shapes st) @ [r]
           \<and> last (st_shapes st') = r
           \<and> (distinct (map shape_id (st_shapes st)) \<longrightarrow>
                set (st_shapes st') = set (st_shapes st))"
    using st' filter_other_ids_set [OF b] by auto
qed

theorem delete_undo_position_witness:
  "shapes (tool (CommandManager_undo (CommandManager_execute (DeleteShapeCommand 0 triangleA)
        (example_manager [triangleA, triangleB])))) = [triangleA, triangleB]
   \<and> (\<exists>st'. store_undo (deleteShape 1 (example_store [triangleA, triangleB])) = Inr st'
         \<and> st_shapes st' = [triangleB, triangleA]
         \<and> set (st_shapes st') = set [triangleA, triangleB])"
  using delete_undo_position [of 0 "example_manager [triangleA, triangleB]" triangleA
      1 "example_store [triangleA, triangleB]" triangleA]
  by (auto simp: example_manager_def example_tool_def example_store_def example_ids)

text \<open>
  The claim as stated fails in script.js: after deleting the first of two shapes and
  undoing, the restored shape is first again, not last.
\<close>

theorem delete_undo_position_counterexample:
  "shapes (tool (example_manager [triangleA, triangleB])) ! 0 = triangleA
   \<and> shapes (tool (CommandManager_undo (CommandManager_execute (DeleteShapeCommand 0 triangleA)
        (example_manager [triangleA, triangleB])))) = [triangleA, triangleB]
   \<and> last (shapes (tool (CommandManager_undo (CommandManager_execute
        (DeleteShapeCommand 0 triangleA) (example_manager [triangleA, triangleB])))))
       \<noteq> triangleA"
  unfolding example_delete_first example_undo_delete_first
  using triangleA_neq_triangleB by (simp add: example_manager_def example_tool_def)

section \<open>Hit testing in the click handlers\<close>




lemma reverse_find_Some:
  "reverse_find P xs n = Some i \<Longrightarrow>
     i < n \<and> P (xs ! i) \<and> (\<forall>k. i < k \<and> k < n \<longrightarrow> \<not> P (xs ! k))"
proof (induction n)
  case 0
  then show ?case by simp
next
  case (Suc n)
  show ?case
  proof (cases "P (xs ! n)")
    case True
    then have "i = n" using Suc.prems by simp
    then show ?thesis using True by auto
  next
    case False
    then have "reverse_find P xs n = Some i" using Suc.prems by simp
    then have ih: "i < n \<and> P (xs ! i) \<and> (\<forall>k. i < k \<and> k < n \<longrightarrow> \<not> P (xs ! k))"
      by (rule Suc.IH)
    show ?thesis
    proof (intro conjI allI impI)
      show "i < Suc n" using ih by simp
      show "P (xs ! i)" using ih by simp
      fix k assume k: "i < k \<and> k < Suc n"
      show "\<not> P (xs ! k)"
      proof (cases "k = n")
        case True
        then show ?thesis using False by simp
      next
        case False
        then have "k < n" using k by simp
        then show ?thesis using ih k by blast
      qed
    qed
  qed
qed















section \<open>Undo in the store after a shape was restored\<close>

lemma example_points:
  "points triangleA = [gridToScreen 0 0, gridToScreen 1 0, gridToScreen 0 1]"
  "points squareA = [gridToScreen 0 0, gridToScreen 1 0, gridToScreen 1 1, gridToScreen 0 1]"
  "points triangleB = [gridToScreen 2 2, gridToScreen 3 2, gridToScreen 2 3]"
  by (simp_all add: triangleA_def squareA_def triangleB_def)

lemma example_drag_triangle:
  "drag_vertex 0 0 (gridToScreen 0 0) (gridToScreen 1 1) (example_store [triangleA, triangleB])
   = Inr ((example_store
             [triangleA\<lparr>points := [gridToScreen 1 1, gridToScreen 1 0, gridToScreen 0 1]\<rparr>,
              triangleB])
          \<lparr>st_undoStack := [EDIT_SHAPE_POINT 0 0 (gridToScreen 0 0)]\<rparr>)"
  by (simp add: drag_vertex_def and_then_def startDraggingPoint_def dragPoint_def
      finishDraggingPoint_def example_store_def js_nth_def js_array_set_def example_points
      gridToScreen_py no_selection_def)

lemma gridToScreen_diagonal_neq:
  "gridToScreen 1 1 \<noteq> gridToScreen 0 0" "gridToScreen 0 0 \<noteq> gridToScreen 2 2"
proof -
  have "py (gridToScreen 1 1) \<noteq> py (gridToScreen 0 0)"
    by (simp add: gridToScreen_py)
  then show "gridToScreen 1 1 \<noteq> gridToScreen 0 0" by auto
  have "py (gridToScreen 0 0) \<noteq> py (gridToScreen 2 2)"
    by (simp add: gridToScreen_py)
  then show "gridToScreen 0 0 \<noteq> gridToScreen 2 2" by auto
qed

lemma example_edit_delete_undo_triangle:
  "edit_delete_undo [triangleA, triangleB] 0 (gridToScreen 1 1)
   = Inr ((example_store
             [triangleB,
              triangleA\<lparr>points := [gridToScreen 1 1, gridToScreen 1 0, gridToScreen 0 1]\<rparr>])
          \<lparr>st_paletteColors := [''#ff0000'', ''#000000''],
            st_undoStack := [EDIT_SHAPE_POINT 0 0 (gridToScreen 0 0)],
            st_redoStack := [ADD_SHAPE (triangleA\<lparr>points :=
                               [gridToScreen 1 1, gridToScreen 1 0, gridToScreen 0 1]\<rparr>)]\<rparr>)"
  using example_drag_triangle
  by (simp add: edit_delete_undo_def and_then_def example_points example_ids example_colors
      deleteShape_def store_undo_def store_addPaletteColor_def addPaletteColor_list_def
      maxPaletteSize_def example_store_def)

lemma example_edit_delete_undo_undo_triangle:
  "edit_delete_undo_undo [triangleA, triangleB] 0 (gridToScreen 1 1)
   = Inr ((example_store
             [triangleB\<lparr>points := [gridToScreen 0 0, gridToScreen 3 2, gridToScreen 2 3]\<rparr>,
              triangleA\<lparr>points := [gridToScreen 1 1, gridToScreen 1 0, gridToScreen 0 1]\<rparr>])
          \<lparr>st_paletteColors := [''#ff0000'', ''#000000''],
            st_undoStack := [],
            st_redoStack := [ADD_SHAPE (triangleA\<lparr>points :=
                               [gridToScreen 1 1, gridToScreen 1 0, gridToScreen 0 1]\<rparr>),
                             EDIT_SHAPE_POINT 0 0 (gridToScreen 2 2)]\<rparr>)"
  by (simp add: edit_delete_undo_undo_def example_edit_delete_undo_triangle and_then_def
      store_undo_def example_store_def js_nth_def example_points)

text \<open>
  C2 on the store: with a triangle A (first) and a triangle B drawn, drag a vertex of A,
  delete A, and undo twice. The first undo appends A behind B; the second, which
  addresses the edited shape by its former index 0, moves a vertex of B. Neither of the
  two original shapes is in the result.
\<close>

theorem store_undo_twice_does_not_restore:
  "map_sum id (\<lambda>st. (st_shapes st, triangleA \<in> set (st_shapes st),
                       triangleB \<in> set (st_shapes st)))
     (edit_delete_undo_undo [triangleA, triangleB] 0 (gridToScreen 1 1))
   = Inr ([triangleB\<lparr>points := [gridToScreen 0 0, gridToScreen 3 2, gridToScreen 2 3]\<rparr>,
           triangleA\<lparr>points := [gridToScreen 1 1, gridToScreen 1 0, gridToScreen 0 1]\<rparr>],
          False, False)"
  unfolding example_edit_delete_undo_undo_triangle
  using gridToScreen_diagonal_neq
  by (simp add: example_store_def triangleA_def triangleB_def)

section \<open>The stack discipline\<close>

text \<open>
  \<open>CommandManager\<close> in script.js: \<open>execute\<close> applies the command, pushes it and empties the
  redo stack; \<open>undo\<close> and \<open>redo\<close> move the top command from one stack to the other and
  apply its \<open>undo\<close> or its \<open>execute\<close>; on an empty stack they change nothing.
\<close>

lemma CommandManager_stack_discipline:
  "undoStack (CommandManager_execute c m) = undoStack m @ [fst (command_execute c (tool m))]
   \<and> redoStack (CommandManager_execute c m) = []
   \<and> tool (CommandManager_execute c m) = snd (command_execute c (tool m))
   \<and> (undoStack m = us @ [c] \<longrightarrow>
        CommandManager_undo m
          = \<lparr>tool = command_undo c (tool m), undoStack = us, redoStack = redoStack m @ [c]\<rparr>)
   \<and> (redoStack m = rs @ [c] \<longrightarrow>
        CommandManager_redo m
          = \<lparr>tool = snd (command_execute c (tool m)),
             undoStack = undoStack m @ [fst (command_execute c (tool m))],
             redoStack = rs\<rparr>)
   \<and> (undoStack m = [] \<longrightarrow> CommandManager_undo m = m)
   \<and> (redoStack m = [] \<longrightarrow> CommandManager_redo m = m)"
  by (simp add: CommandManager_execute_def CommandManager_undo_def CommandManager_redo_def
      split_beta Let_def)

lemma command_execute_keeps_command:
  "fst (command_execute c t)
   = (case c of AddShapeCommand sd None \<Rightarrow> AddShapeCommand sd (Some (shapeIdCounter t + 1))
      | _ \<Rightarrow> c)"
  by (cases c) (simp_all add: split_beta Let_def getNextShapeId_def split: option.split)

text \<open>
  The store moves one entry from one stack to the other whenever \<open>undo\<close> or \<open>redo\<close>
  returns, and leaves the state alone on an empty stack.
\<close>

lemma store_undo_moves_entry:
  "(st_undoStack st = [] \<longrightarrow> store_undo st = Inr st)
   \<and> (store_undo st = Inr st' \<and> st_undoStack st \<noteq> [] \<longrightarrow>
        st_undoStack st' = butlast (st_undoStack st)
        \<and> butlast (st_redoStack st') = st_redoStack st
        \<and> length (st_redoStack st') = Suc (length (st_redoStack st)))"
  by (auto simp: store_undo_def Let_def split: sum.splits)

lemma store_redo_moves_entry:
  "(st_redoStack st = [] \<longrightarrow> store_redo st = Inr st)
   \<and> (store_redo st = Inr st' \<and> st_redoStack st \<noteq> [] \<longrightarrow>
        st_redoStack st' = butlast (st_redoStack st)
        \<and> butlast (st_undoStack st') = st_undoStack st
        \<and> length (st_undoStack st') = Suc (length (st_undoStack st)))"
  by (auto simp: store_redo_def Let_def split: sum.splits)

lemma example_drag_square:
  "drag_vertex 0 3 (gridToScreen 0 1) (gridToScreen 0 2) (example_store [squareA, triangleB])
   = Inr ((example_store
             [squareA\<lparr>points := [gridToScreen 0 0, gridToScreen 1 0, gridToScreen 1 1,
                                   gridToScreen 0 2]\<rparr>,
              triangleB])
          \<lparr>st_undoStack := [EDIT_SHAPE_POINT 0 3 (gridToScreen 0 1)]\<rparr>)"
  by (simp add: drag_vertex_def and_then_def startDraggingPoint_def dragPoint_def
      finishDraggingPoint_def example_store_def js_nth_def js_array_set_def example_points
      gridToScreen_py no_selection_def eval_nat_numeral)

lemma example_edit_delete_undo_square:
  "edit_delete_undo [squareA, triangleB] 3 (gridToScreen 0 2)
   = Inr ((example_store
             [triangleB,
              squareA\<lparr>points := [gridToScreen 0 0, gridToScreen 1 0, gridToScreen 1 1,
                                   gridToScreen 0 2]\<rparr>])
          \<lparr>st_paletteColors := [''#ff0000'', ''#000000''],
            st_undoStack := [EDIT_SHAPE_POINT 0 3 (gridToScreen 0 1)],
            st_redoStack := [ADD_SHAPE (squareA\<lparr>points :=
                               [gridToScreen 0 0, gridToScreen 1 0, gridToScreen 1 1,
                                gridToScreen 0 2]\<rparr>)]\<rparr>)"
  using example_drag_square
  by (simp add: edit_delete_undo_def and_then_def example_points example_ids example_colors
      deleteShape_def store_undo_def store_addPaletteColor_def addPaletteColor_list_def
      maxPaletteSize_def example_store_def eval_nat_numeral)

text \<open>
  Redo after undoing a deletion in the store: the entry \<open>ADD_SHAPE\<close> stays what it is when
  \<open>undo\<close> moves it to the redo stack, so that \<open>redo\<close> adds the shape once more.
\<close>

lemma store_redo_after_undo_of_delete:
  "map_sum id st_shapes
     (and_then (store_undo (deleteShape 1 (example_store [triangleA]))) store_redo)
   = Inr [triangleA, triangleA]"
  by (simp add: and_then_def deleteShape_def store_undo_def store_redo_def example_store_def
      example_ids store_addPaletteColor_def)

text \<open>
  C3 on the store: with a square A (first) and a triangle B drawn, drag the fourth vertex
  of A, delete A and undo: A is appended behind B. The undo stack now holds the entry of
  the drag, which addresses index 0 and vertex 3; the shape at index 0 is B, which has
  three vertices, and \<open>undo\<close> ends with a \<open>SyntaxError\<close> instead of popping the entry.
\<close>

theorem store_undo_raises_on_nonempty_stack:
  "map_sum id (\<lambda>st. (st_undoStack st, store_undo st))
     (edit_delete_undo [squareA, triangleB] 3 (gridToScreen 0 2))
   = Inr ([EDIT_SHAPE_POINT 0 3 (gridToScreen 0 1)], Inl SyntaxError)"
  unfolding example_edit_delete_undo_square
  by (simp add: store_undo_def example_store_def js_nth_def example_points)

section \<open>SVG import\<close>







lemma element_color_cases:
  "element_color \<lparr>attr_points = p, attr_fill = Some (c # cs), attr_stroke = s\<rparr> = c # cs"
  "element_color \<lparr>attr_points = p, attr_fill = None, attr_stroke = Some (c # cs)\<rparr> = c # cs"
  "element_color \<lparr>attr_points = p, attr_fill = Some [], attr_stroke = Some (c # cs)\<rparr> = c # cs"
  "element_color \<lparr>attr_points = p, attr_fill = None, attr_stroke = None\<rparr> = ''#000000''"
  by (simp_all add: element_color_def)










section \<open>Undoing a sequence of commands in script.js\<close>

lemma findIndex_first:
  "(\<forall>x \<in> set xs. \<not> P x) \<Longrightarrow> P a \<Longrightarrow> findIndex P (xs @ a # ys) = int (length xs)"
  by (induction xs) (simp_all add: Let_def)

lemma splice_remove_middle:
  "splice (xs @ a # ys) (int (length xs)) 1 [] = xs @ ys"
  using splice_remove_one [of "length xs" "xs @ a # ys"] by simp

lemma shapes_addPaletteColor [simp]:
  "shapes (addPaletteColor c t) = shapes t"
  "shapeIdCounter (addPaletteColor c t) = shapeIdCounter t"
  by (simp_all add: addPaletteColor_def)

lemma js_nth_Some:
  "js_nth xs i = Some a \<longleftrightarrow> 0 \<le> i \<and> nat i < length xs \<and> xs ! nat i = a"
  by (auto simp: js_nth_def nat_less_iff split: if_splits)

lemma js_nth_update:
  "js_nth xs i = Some a \<Longrightarrow> js_nth (xs[nat i := b]) i = Some b"
  by (auto simp: js_nth_def split: if_splits)

lemma add_round_trip:
  assumes "ids_ok t" "shapes u = shapes (snd (command_execute (AddShapeCommand sd None) t))"
  shows "shapes (command_undo (fst (command_execute (AddShapeCommand sd None) t)) u) = shapes t"
proof -
  define sh where "sh = \<lparr>shape_id = shapeIdCounter t + 1, points = data_points sd,
                          color = data_color sd\<rparr>"
  have u: "shapes u = shapes t @ [sh]"
    using assms(2) by (simp add: getNextShapeId_def sh_def)
  have c: "fst (command_execute (AddShapeCommand sd None) t)
           = AddShapeCommand sd (Some (shapeIdCounter t + 1))"
    by (simp add: getNextShapeId_def)
  have "\<forall>x \<in> set (shapes t). shape_id x \<noteq> shapeIdCounter t + 1"
    using assms(1) by (auto simp: ids_ok_def list_all_iff)
  then have "findIndex (\<lambda>x. Some (shape_id x) = Some (shapeIdCounter t + 1)) (shapes t @ sh # [])
             = int (length (shapes t))"
    by (intro findIndex_first) (simp_all add: sh_def)
  then have "shapes (command_undo (AddShapeCommand sd (Some (shapeIdCounter t + 1))) u) = shapes t"
    using splice_remove_middle [of "shapes t" sh "[]"] by (simp add: u Let_def)
  then show ?thesis
    unfolding c .
qed

lemma splice_remove_int:
  "0 \<le> i \<Longrightarrow> nat i < length xs \<Longrightarrow> splice xs i 1 [] = take (nat i) xs @ drop (Suc (nat i)) xs"
  using splice_remove_one [of "nat i" xs] by simp

lemma splice_insert_int:
  "0 \<le> i \<Longrightarrow> nat i \<le> length ys \<Longrightarrow> splice ys i 0 [a] = take (nat i) ys @ [a] @ drop (nat i) ys"
  using splice_insert_one [of "nat i" ys a] by simp

lemma delete_round_trip:
  assumes "command_fits (DeleteShapeCommand i s) t"
    "shapes u = shapes (snd (command_execute (DeleteShapeCommand i s) t))"
  shows "shapes (command_undo (fst (command_execute (DeleteShapeCommand i s) t)) u) = shapes t"
proof -
  have i: "0 \<le> i" "nat i < length (shapes t)" "shapes t ! nat i = s"
    and lt: "i < int (length (shapes t))"
    using assms(1) by (simp_all add: nat_less_iff)
  have u: "shapes u = take (nat i) (shapes t) @ drop (Suc (nat i)) (shapes t)"
    using assms(2) i(1) lt splice_remove_int [OF i(1) i(2)] by simp
  have len: "nat i \<le> length (shapes u)"
    using i(2) by (simp add: u min_def)
  have "splice (shapes u) i 0 [s] = take (nat i) (shapes u) @ [s] @ drop (nat i) (shapes u)"
    by (rule splice_insert_int [OF i(1) len])
  also have "\<dots> = take (nat i) (shapes t) @ shapes t ! nat i # drop (Suc (nat i)) (shapes t)"
    using i(2) by (simp add: u i(3) min_def)
  also have "\<dots> = shapes t"
    by (rule id_take_nth_drop [OF i(2), symmetric])
  finally show ?thesis
    by simp
qed

lemma fill_round_trip:
  assumes "command_fits (FillShapeCommand i old new) t"
    "shapes u = shapes (snd (command_execute (FillShapeCommand i old new) t))"
  shows "shapes (command_undo (fst (command_execute (FillShapeCommand i old new) t)) u) = shapes t"
proof -
  obtain sh where sh: "js_nth (shapes t) i = Some sh" "color sh = old"
    using assms(1) by (cases "js_nth (shapes t) i") simp_all
  have n: "shapes t ! nat i = sh"
    using sh(1) by (simp add: js_nth_Some)
  have u: "shapes u = (shapes t)[nat i := sh\<lparr>color := new\<rparr>]"
    using assms(2) sh by simp
  have "js_nth (shapes u) i = Some (sh\<lparr>color := new\<rparr>)"
    unfolding u using sh(1) by (rule js_nth_update)
  then have "shapes (command_undo (FillShapeCommand i old new) u)
             = (shapes t)[nat i := sh\<lparr>color := old\<rparr>]"
    by (simp add: u)
  also have "\<dots> = shapes t"
    using n sh(2) by (metis list_update_id shape.update_convs(3) shape.surjective shape.select_convs(3) shape.simps)
  finally show ?thesis
    by simp
qed

lemma edit_round_trip:
  assumes "command_fits (EditShapePointCommand i j old new) t"
    "shapes u = shapes (snd (command_execute (EditShapePointCommand i j old new) t))"
  shows "shapes (command_undo (fst (command_execute (EditShapePointCommand i j old new) t)) u)
         = shapes t"
proof -
  obtain sh where sh: "js_nth (shapes t) i = Some sh" "js_nth (points sh) j = Some old"
    using assms(1) by (cases "js_nth (shapes t) i") simp_all
  have n: "shapes t ! nat i = sh" "points sh ! nat j = old"
    using sh by (simp_all add: js_nth_Some)
  define sh' where "sh' = sh\<lparr>points := (points sh)[nat j := new]\<rparr>"
  have u: "shapes u = (shapes t)[nat i := sh']"
    using assms(2) sh by (simp add: sh'_def)
  have 1: "js_nth (shapes u) i = Some sh'"
    unfolding u using sh(1) by (rule js_nth_update)
  have 2: "js_nth (points sh') j = Some new"
    unfolding sh'_def using js_nth_update [OF sh(2)] by simp
  have bk: "sh'\<lparr>points := (points sh')[nat j := old]\<rparr> = sh"
  proof -
    have "(points sh)[nat j := old] = points sh"
      using n(2) list_update_id [of "points sh" "nat j"] by simp
    then show ?thesis
      by (simp add: sh'_def)
  qed
  have "shapes (command_undo (EditShapePointCommand i j old new) u)
        = (shapes u)[nat i := sh'\<lparr>points := (points sh')[nat j := old]\<rparr>]"
    using 1 2 by simp
  also have "\<dots> = (shapes t)[nat i := sh]"
    by (simp add: u bk)
  also have "\<dots> = shapes t"
    using n(1) list_update_id [of "shapes t" "nat i"] by simp
  finally show ?thesis
    by simp
qed

lemma shapes_foldl_addPaletteColor:
  "shapes (foldl (\<lambda>u sh. addPaletteColor (color sh) u) t xs) = shapes t"
  by (induction xs arbitrary: t) simp_all

lemma clear_round_trip:
  assumes "command_fits (ClearAllCommand orig) t"
  shows "shapes (command_undo (fst (command_execute (ClearAllCommand orig) t)) u) = shapes t"
  using assms by (simp add: shapes_foldl_addPaletteColor)

lemma import_add_all:
  assumes "distinct (map shape_id xs)"
    "\<forall>sh \<in> set xs. \<forall>e \<in> set (shapes t). shape_id e \<noteq> shape_id sh"
  shows "shapes (foldl import_add t xs) = shapes t @ xs
         \<and> shapeIdCounter (foldl import_add t xs) = shapeIdCounter t"
  using assms
proof (induction xs arbitrary: t)
  case Nil
  then show ?case by simp
next
  case (Cons x xs)
  have x: "shapes (import_add t x) = shapes t @ [x]"
    "shapeIdCounter (import_add t x) = shapeIdCounter t"
    using Cons.prems(2) by (auto simp: import_add_def Let_def list_ex_iff)
  have d: "distinct (map shape_id xs)"
    using Cons.prems(1) by simp
  have "\<forall>sh \<in> set xs. \<forall>e \<in> set (shapes (import_add t x)). shape_id e \<noteq> shape_id sh"
    using Cons.prems by (auto simp: x)
  then show ?case
    using Cons.IH [OF d, of "import_add t x"] by (simp add: x)
qed

lemma import_remove_all:
  assumes "distinct (map shape_id xs)"
    "\<forall>sh \<in> set xs. \<forall>e \<in> set ys. shape_id e \<noteq> shape_id sh"
    "shapes u = ys @ xs"
  shows "shapes (foldl import_remove u xs) = ys"
  using assms
proof (induction xs arbitrary: u)
  case Nil
  then show ?case by simp
next
  case (Cons x xs)
  have "findIndex (\<lambda>e. shape_id e = shape_id x) (ys @ x # xs) = int (length ys)"
    using Cons.prems(2) by (intro findIndex_first) auto
  then have x: "shapes (import_remove u x) = ys @ xs"
    using splice_remove_middle [of ys x xs] by (simp add: import_remove_def Let_def Cons.prems(3))
  have d: "distinct (map shape_id xs)"
    using Cons.prems(1) by simp
  have "\<forall>sh \<in> set xs. \<forall>e \<in> set ys. shape_id e \<noteq> shape_id sh"
    using Cons.prems(2) by simp
  then show ?case
    using Cons.IH [OF d _ x] by simp
qed

lemma shapes_renderPaletteFromShapes [simp]:
  "shapes (renderPaletteFromShapes t) = shapes t"
  by (simp add: renderPaletteFromShapes_def Let_def)

lemma import_fits_fresh:
  assumes "command_fits (ImportShapesCommand xs) t"
  shows "distinct (map shape_id xs)" "\<forall>sh \<in> set xs. \<forall>e \<in> set (shapes t). shape_id e \<noteq> shape_id sh"
    "\<forall>sh \<in> set xs. shape_id sh \<le> shapeIdCounter t"
  using assms by (auto simp: list_all_iff list_ex_iff)

lemma import_round_trip:
  assumes "command_fits (ImportShapesCommand xs) t"
    "shapes u = shapes (snd (command_execute (ImportShapesCommand xs) t))"
  shows "shapes (command_undo (fst (command_execute (ImportShapesCommand xs) t)) u) = shapes t"
proof -
  note f = import_fits_fresh [OF assms(1)]
  have u: "shapes u = shapes t @ xs"
    using assms(2) import_add_all [OF f(1) f(2)] by simp
  show ?thesis
    using import_remove_all [OF f(1) f(2) u] by simp
qed

lemma command_round_trip:
  assumes "ids_ok t" "command_fits c t" "shapes u = shapes (snd (command_execute c t))"
  shows "shapes (command_undo (fst (command_execute c t)) u) = shapes t"
proof (cases c)
  case (AddShapeCommand sd ido)
  then have "ido = None" using assms(2) by simp
  then show ?thesis
    using add_round_trip [OF assms(1), of u sd] assms(3) AddShapeCommand by simp
next
  case (DeleteShapeCommand i s)
  then show ?thesis
    using delete_round_trip [of i s t u] assms by simp
next
  case (FillShapeCommand i old new)
  then show ?thesis
    using fill_round_trip [of i old new t u] assms by simp
next
  case (EditShapePointCommand i j old new)
  then show ?thesis
    using edit_round_trip [of i j old new t u] assms by simp
next
  case (ClearAllCommand orig)
  then show ?thesis
    using clear_round_trip [of orig t u] assms by simp
next
  case (ImportShapesCommand xs)
  then show ?thesis
    using import_round_trip [of xs t u] assms by simp
qed

lemma ids_ok_map:
  "ids_ok t \<longleftrightarrow> distinct (map shape_id (shapes t))
                \<and> (\<forall>k \<in> set (map shape_id (shapes t)). k \<le> shapeIdCounter t)"
  by (auto simp: ids_ok_def list_all_iff)

lemma map_shape_id_update:
  assumes "xs ! k = sh" "shape_id sh' = shape_id sh"
  shows "map shape_id (xs[k := sh']) = map shape_id xs"
proof (cases "k < length xs")
  case True
  have "map shape_id (xs[k := sh']) = (map shape_id xs)[k := map shape_id xs ! k]"
    using True assms by (simp add: map_update)
  then show ?thesis
    by (simp only: list_update_id)
next
  case False
  then have "xs[k := sh'] = xs"
    by (simp add: list_update_beyond)
  then show ?thesis
    by simp
qed

lemma distinct_remove_nth:
  assumes "distinct ks" "k < length ks"
  shows "distinct (take k ks @ drop (Suc k) ks)" "set (take k ks @ drop (Suc k) ks) \<subseteq> set ks"
proof -
  have "distinct (take k ks @ ks ! k # drop (Suc k) ks)"
    using assms id_take_nth_drop [OF assms(2)] by simp
  then show "distinct (take k ks @ drop (Suc k) ks)"
    by simp
  show "set (take k ks @ drop (Suc k) ks) \<subseteq> set ks"
    using set_take_subset [of k ks] set_drop_subset [of "Suc k" ks] by auto
qed

lemma command_execute_ids_ok:
  assumes "ids_ok t" "command_fits c t"
  shows "ids_ok (snd (command_execute c t))"
proof (cases c)
  case (AddShapeCommand sd ido)
  then have "ido = None" using assms(2) by simp
  then show ?thesis
    using assms(1) AddShapeCommand
    by (fastforce simp: ids_ok_map getNextShapeId_def)
next
  case (DeleteShapeCommand i s)
  have i: "0 \<le> i" "nat i < length (shapes t)" and lt: "i < int (length (shapes t))"
    using assms(2) DeleteShapeCommand by (simp_all add: nat_less_iff)
  have k: "nat i < length (map shape_id (shapes t))"
    using i(2) by simp
  have d: "distinct (map shape_id (shapes t))"
    using assms(1) by (simp add: ids_ok_map)
  have "shapes (snd (command_execute c t)) = take (nat i) (shapes t) @ drop (Suc (nat i)) (shapes t)"
    using DeleteShapeCommand i(1) lt splice_remove_int [OF i(1) i(2)] by simp
  then have m: "map shape_id (shapes (snd (command_execute c t)))
        = take (nat i) (map shape_id (shapes t)) @ drop (Suc (nat i)) (map shape_id (shapes t))"
    by (simp add: take_map drop_map)
  have c: "shapeIdCounter (snd (command_execute c t)) = shapeIdCounter t"
    using DeleteShapeCommand by simp
  show ?thesis
    unfolding ids_ok_map m c
    using distinct_remove_nth [OF d k] assms(1) by (auto simp: ids_ok_map)
next
  case (FillShapeCommand i old new)
  obtain sh where sh: "js_nth (shapes t) i = Some sh"
    using assms(2) FillShapeCommand by (cases "js_nth (shapes t) i") simp_all
  have n: "shapes t ! nat i = sh"
    using sh by (simp add: js_nth_Some)
  have "map shape_id (shapes (snd (command_execute c t))) = map shape_id (shapes t)"
    "shapeIdCounter (snd (command_execute c t)) = shapeIdCounter t"
    using FillShapeCommand sh map_shape_id_update [OF n, of "sh\<lparr>color := new\<rparr>"] by simp_all
  then show ?thesis
    using assms(1) by (simp add: ids_ok_map)
next
  case (EditShapePointCommand i j old new)
  obtain sh where sh: "js_nth (shapes t) i = Some sh" "js_nth (points sh) j = Some old"
    using assms(2) EditShapePointCommand by (cases "js_nth (shapes t) i") simp_all
  have n: "shapes t ! nat i = sh"
    using sh by (simp add: js_nth_Some)
  have "map shape_id (shapes (snd (command_execute c t))) = map shape_id (shapes t)"
    "shapeIdCounter (snd (command_execute c t)) = shapeIdCounter t"
    using EditShapePointCommand sh
      map_shape_id_update [OF n, of "sh\<lparr>points := (points sh)[nat j := new]\<rparr>"] by simp_all
  then show ?thesis
    using assms(1) by (simp add: ids_ok_map)
next
  case (ClearAllCommand orig)
  then show ?thesis
    by (simp add: ids_ok_map)
next
  case (ImportShapesCommand xs)
  note f = import_fits_fresh [OF assms(2) [unfolded ImportShapesCommand]]
  have s: "shapes (snd (command_execute c t)) = shapes t @ xs"
    "shapeIdCounter (snd (command_execute c t)) = shapeIdCounter t"
    using ImportShapesCommand import_add_all [OF f(1) f(2)] by simp_all
  show ?thesis
    unfolding ids_ok_map s using assms(1) f by (auto simp: ids_ok_map)
qed

lemma undo_times_Suc: "undo_times (Suc n) M = CommandManager_undo (undo_times n M)"
  by (simp add: undo_times_def)

lemma execute_all_Cons: "execute_all (c # cs) m = execute_all cs (CommandManager_execute c m)"
  by (simp add: execute_all_def)

lemma undo_all_general:
  assumes "ids_ok (tool m)" "fits_all cs (tool m)"
    "shapes (tool M) = shapes (tool (execute_all cs m))"
    "undoStack M = undoStack (execute_all cs m)"
  shows "shapes (tool (undo_times (length cs) M)) = shapes (tool m)
         \<and> undoStack (undo_times (length cs) M) = undoStack m"
  using assms
proof (induction cs arbitrary: m)
  case Nil
  then show ?case
    by (simp add: execute_all_def undo_times_def)
next
  case (Cons c cs)
  define m1 where "m1 = CommandManager_execute c m"
  define c1 where "c1 = fst (command_execute c (tool m))"
  have t1: "tool m1 = snd (command_execute c (tool m))"
    and u1: "undoStack m1 = undoStack m @ [c1]"
    by (simp_all add: m1_def c1_def CommandManager_execute_def split_beta)
  have fit: "command_fits c (tool m)" "fits_all cs (tool m1)"
    using Cons.prems(2) by (simp_all add: t1)
  have ok1: "ids_ok (tool m1)"
    unfolding t1 by (rule command_execute_ids_ok [OF Cons.prems(1) fit(1)])
  have ih: "shapes (tool (undo_times (length cs) M)) = shapes (tool m1)
         \<and> undoStack (undo_times (length cs) M) = undoStack m1"
    using Cons.IH [OF ok1 fit(2)] Cons.prems(3,4) by (simp add: execute_all_Cons m1_def)
  define M' where "M' = undo_times (length cs) M"
  have s': "shapes (tool M') = shapes (snd (command_execute c (tool m)))"
    and st: "undoStack M' = undoStack m @ [c1]"
    using ih by (simp_all add: M'_def t1 u1)
  have "shapes (command_undo c1 (tool M')) = shapes (tool m)"
    unfolding c1_def by (rule command_round_trip [OF Cons.prems(1) fit(1) s'])
  then have "shapes (tool (CommandManager_undo M')) = shapes (tool m)
         \<and> undoStack (CommandManager_undo M') = undoStack m"
    by (simp add: CommandManager_undo_def st)
  then show ?case
    by (simp add: undo_times_Suc M'_def)
qed

text \<open>
  In script.js, after any sequence of commands that the handlers build, as many undos as
  there were commands give back the shapes as they were, in their order, and the undo
  stack as it was.
\<close>

lemma script_undo_all_restores:
  assumes "ids_ok (tool m)" "fits_all cs (tool m)"
  shows "shapes (tool (undo_times (length cs) (execute_all cs m))) = shapes (tool m)
         \<and> undoStack (undo_times (length cs) (execute_all cs m)) = undoStack m"
  using undo_all_general [OF assms, of "execute_all cs m"] by simp

lemma script_undo_all_restores_example:
  "ids_ok (tool (example_manager [triangleA, triangleB]))
   \<and> fits_all [FillShapeCommand 1 ''#ff0000'' ''#00ff00'', DeleteShapeCommand 0 triangleA,
                AddShapeCommand \<lparr>data_points = points lineC, data_color = ''#0000ff''\<rparr> None]
         (tool (example_manager [triangleA, triangleB]))
   \<and> shapes (tool (undo_times 3 (execute_all
         [FillShapeCommand 1 ''#ff0000'' ''#00ff00'', DeleteShapeCommand 0 triangleA,
          AddShapeCommand \<lparr>data_points = points lineC, data_color = ''#0000ff''\<rparr> None]
         (example_manager [triangleA, triangleB]))))
       = [triangleA, triangleB]"
proof -
  have ok: "ids_ok (tool (example_manager [triangleA, triangleB]))"
    by (simp add: ids_ok_def example_manager_def example_tool_def example_ids)
  have fits: "fits_all [FillShapeCommand 1 ''#ff0000'' ''#00ff00'', DeleteShapeCommand 0 triangleA,
                AddShapeCommand \<lparr>data_points = points lineC, data_color = ''#0000ff''\<rparr> None]
         (tool (example_manager [triangleA, triangleB]))"
    by (simp add: example_manager_def example_tool_def js_nth_def example_colors)
  have r: "shapes (tool (undo_times
         (length [FillShapeCommand 1 ''#ff0000'' ''#00ff00'', DeleteShapeCommand 0 triangleA,
            AddShapeCommand \<lparr>data_points = points lineC, data_color = ''#0000ff''\<rparr> None])
         (execute_all
            [FillShapeCommand 1 ''#ff0000'' ''#00ff00'', DeleteShapeCommand 0 triangleA,
             AddShapeCommand \<lparr>data_points = points lineC, data_color = ''#0000ff''\<rparr> None]
            (example_manager [triangleA, triangleB]))))
       = shapes (tool (example_manager [triangleA, triangleB]))"
    by (rule conjunct1 [OF script_undo_all_restores [OF ok fits]])
  have l: "length [FillShapeCommand 1 ''#ff0000'' ''#00ff00'', DeleteShapeCommand 0 triangleA,
            AddShapeCommand \<lparr>data_points = points lineC, data_color = ''#0000ff''\<rparr> None] = 3"
    by simp
  have s: "shapes (tool (example_manager [triangleA, triangleB])) = [triangleA, triangleB]"
    by (simp add: example_manager_def example_tool_def)
  show ?thesis
    using ok fits r [unfolded l s] by (intro conjI)
qed

text \<open>
  The commands that the click handlers and the import constructor build fit the state
  they are built for.
\<close>

lemma delete_handler_command_fits:
  assumes "topmost_containing cx cy (shapes t) = Some i"
  shows "command_fits (DeleteShapeCommand (int i) (shapes t ! i)) t"
proof -
  have "i < length (shapes t)"
    using reverse_find_Some [OF assms [unfolded topmost_containing_def]] by simp
  then show ?thesis
    by simp
qed

lemma fill_handler_command_fits:
  assumes "topmost_fillable cx cy (shapes t) = Some i"
  shows "command_fits (FillShapeCommand (int i) (color (shapes t ! i)) c) t"
proof -
  have "i < length (shapes t)"
    using reverse_find_Some [OF assms [unfolded topmost_fillable_def]] by simp
  then show ?thesis
    by (simp add: js_nth_def)
qed

lemma assign_ids_fresh:
  "assign_ids ds t = (xs, t1) \<Longrightarrow>
     shapes t1 = shapes t \<and> shapeIdCounter t \<le> shapeIdCounter t1
     \<and> distinct (map shape_id xs)
     \<and> (\<forall>s \<in> set xs. shapeIdCounter t < shape_id s \<and> shape_id s \<le> shapeIdCounter t1)"
proof (induction ds arbitrary: t xs t1)
  case Nil
  then show ?case by simp
next
  case (Cons d ds)
  define ta where "ta = t\<lparr>shapeIdCounter := shapeIdCounter t + 1\<rparr>"
  obtain rest t2 where r: "assign_ids ds ta = (rest, t2)"
    by (cases "assign_ids ds ta")
  have xs: "xs = \<lparr>shape_id = shapeIdCounter t + 1, points = data_points d,
                   color = data_color d\<rparr> # rest" and t1: "t1 = t2"
    using Cons.prems r by (simp_all add: getNextShapeId_def ta_def)
  have ih: "shapes t2 = shapes ta \<and> shapeIdCounter ta \<le> shapeIdCounter t2
     \<and> distinct (map shape_id rest)
     \<and> (\<forall>s \<in> set rest. shapeIdCounter ta < shape_id s \<and> shape_id s \<le> shapeIdCounter t2)"
    by (rule Cons.IH [OF r])
  have ca: "shapeIdCounter ta = shapeIdCounter t + 1" "shapes ta = shapes t"
    by (simp_all add: ta_def)
  show ?case
    unfolding xs t1 using ih ca by auto
qed

lemma import_constructor_command_fits:
  assumes "ids_ok t" "new_ImportShapesCommand ds t = (c, t1)"
  shows "command_fits c t1 \<and> ids_ok t1"
proof -
  obtain xs where a: "assign_ids ds t = (xs, t1)" and c: "c = ImportShapesCommand xs"
    using assms(2) by (cases "assign_ids ds t") (simp add: new_ImportShapesCommand_def)
  note f = assign_ids_fresh [OF a]
  have old: "\<forall>e \<in> set (shapes t). shape_id e \<le> shapeIdCounter t"
    using assms(1) by (simp add: ids_ok_def list_all_iff)
  have "ids_ok t1"
    using assms(1) f old by (fastforce simp: ids_ok_def list_all_iff)
  moreover have "command_fits (ImportShapesCommand xs) t1"
    using f old by (fastforce simp: list_all_iff list_ex_iff)
  ultimately show ?thesis
    by (simp add: c)
qed

end
